theory Spec2Isabelle
  imports Main "HOL-Library.Multiset" "HOL-Library.List_Lexorder" "HOL-Library.Product_Lexorder"
    "HOL-Library.Char_ord"
begin

section \<open>Data model of the lowering pass\<close>

text \<open>
  The enumerations and classes below are the ones \<^verbatim>\<open>ir.py\<close> imports from
  \<^verbatim>\<open>msccl.language.types\<close>. Only the members and attributes that the two lowering
  modules read or write are kept. Python integers are unbounded, hence \<open>int\<close>.
\<close>

datatype Instruction =
    nop | read_reduce_copy | read_reduce_copy_send | reduce_send | copy | reduce
  | copy_packet | transform_to_packet | reduce_send_packet | reduce_packet
  | put | put_packet | put_with_signal | put_with_signal_and_flush
  | get | wait | signal | flush | barrier
  | group_store | group_load_reduce | group_load_reduce_store

datatype Buffer = input_buf | output_buf | scratch_buf

datatype ChannelType = proxy | sm | none | nvls

text \<open>Exceptions the two modules can raise; a raise is the \<open>Inl\<close> branch of a result.\<close>

datatype exn = AttributeError | KeyError | IndexError | TypeError | ValueError

record ChunkRef =
  rank :: int
  buffer :: Buffer
  index :: int
  size_c :: int

text \<open>
  \<open>connected_to\<close> of a channel is a single rank, or a list of ranks for a multicast
  channel.
\<close>

datatype target = Rank int | Ranks "int list"

record Channel =
  srcBuffer :: Buffer
  dstBuffer :: Buffer
  ctype :: ChannelType
  connected_to :: target

text \<open>
  Ops are objects: a dependency is a reference to another op, and the pass mutates ops
  through those references. An op is therefore kept in a store and named by its
  address; \<open>depends\<close> and the op lists of threadblocks hold addresses. Two ops are the
  same op exactly when their addresses are equal. The two keys of \<open>extra\<close> that the
  serializer reads are separate optional fields (\<open>None\<close>: key absent).
\<close>

type_synonym oid = nat

record Op =
  inst :: Instruction
  op_rank :: int
  src :: "ChunkRef option"
  dst :: "ChunkRef option"
  depends :: "oid list"
  step :: int
  tb :: int
  channel_type :: ChannelType
  srcs :: "ChunkRef list"
  dsts :: "ChunkRef list"
  extra_tb_list :: "int list option"
  extra_barrier_id :: "int option"

type_synonym store = "oid \<Rightarrow> Op"

text \<open>
  The op that \<^verbatim>\<open>Op(Instruction.nop, -1, None, None, [])\<close> constructs; the attributes
  not given take the defaults of the class.
\<close>

definition new_nop :: Op where
  "new_nop =
     \<lparr>inst = nop, op_rank = - 1, src = None, dst = None, depends = [], step = - 1, tb = - 1,
      channel_type = none, srcs = [], dsts = [], extra_tb_list = None,
      extra_barrier_id = None\<rparr>"

record Threadblock =
  tb_channel :: int
  ops :: "oid list"
  tb_id :: int
  channels :: "Channel list"

text \<open>
  A device's channel table is a Python dict, which keeps its keys in insertion order:
  an association list from (source buffer, destination buffer, channel type) to the
  list of (threadblock id, connection target).
\<close>

type_synonym chan_key = "Buffer \<times> Buffer \<times> ChannelType"
type_synonym chan_entry = "int \<times> target"
type_synonym chan_dict = "(chan_key \<times> chan_entry list) list"

record Gpu =
  gpu_rank :: int
  threadblocks :: "Threadblock list"
  input_chunks :: int
  output_chunks :: int
  scratch_chunks :: int
  gpu_channels :: chan_dict

record Program =
  name :: string
  collective :: string
  protocol :: string
  inplace :: bool
  num_chunk_groups :: int
  num_threads_per_block :: int
  use_double_scratch_buffer :: bool
  min_message_size :: int
  max_message_size :: int
  gpus :: "Gpu list"

text \<open>A \<^verbatim>\<open>for\<close> loop whose body can raise: the first raise ends the loop.\<close>

fun foldE :: "('a \<Rightarrow> 's \<Rightarrow> exn + 's) \<Rightarrow> 'a list \<Rightarrow> 's \<Rightarrow> exn + 's" where
  "foldE f [] s = Inr s"
| "foldE f (x # xs) s = (case f x s of Inl e \<Rightarrow> Inl e | Inr s' \<Rightarrow> foldE f xs s')"

section \<open>Buffer size inference\<close>

definition local_src_insts_mscclpp :: "Instruction set" where
  "local_src_insts_mscclpp =
     {put, put_packet, signal, flush, put_with_signal, put_with_signal_and_flush, copy,
      copy_packet, transform_to_packet, reduce, reduce_packet, reduce_send,
      reduce_send_packet, group_load_reduce_store, group_store}"

definition local_dst_insts_mscclpp :: "Instruction set" where
  "local_dst_insts_mscclpp =
     {get, wait, read_reduce_copy, copy, copy_packet, transform_to_packet, reduce,
      read_reduce_copy_send, reduce_send, reduce_packet, reduce_send_packet,
      group_load_reduce_store, group_load_reduce}"

text \<open>The two sets of the older module \<^verbatim>\<open>ir_mscclpp.py\<close>.\<close>

definition legacy_local_src_insts :: "Instruction set" where
  "legacy_local_src_insts =
     {put, put_packet, signal, copy, copy_packet, reduce, reduce_packet, reduce_send,
      reduce_send_packet}"

definition legacy_local_dst_insts :: "Instruction set" where
  "legacy_local_dst_insts =
     {get, wait, read_reduce_copy, copy, copy_packet, reduce, read_reduce_copy_send,
      reduce_send, reduce_packet, reduce_send_packet}"

text \<open>
  \<open>buffer_sizes\<close> is a \<^verbatim>\<open>defaultdict\<close> with default 0, keyed by (rank, buffer): a total
  function. \<open>bump\<close> is the statement
  \<^verbatim>\<open>buffer_sizes[key] = max(buffer_sizes[key], c.index + c.size)\<close>.
\<close>

type_synonym sizes = "int \<times> Buffer \<Rightarrow> int"

definition bump :: "int \<Rightarrow> ChunkRef \<Rightarrow> sizes \<Rightarrow> sizes" where
  "bump r c bs = bs((r, buffer c) := max (bs (r, buffer c)) (index c + size_c c))"

definition remote_dst_insts :: "Instruction set" where
  "remote_dst_insts = {read_reduce_copy_send, reduce_send, reduce_send_packet}"

text \<open>The body of the innermost loop; \<open>op.src\<close> or \<open>op.dst\<close> being \<open>None\<close> raises.\<close>

definition scan_src :: "Instruction set \<Rightarrow> int \<Rightarrow> Op \<Rightarrow> sizes \<Rightarrow> exn + sizes" where
  "scan_src lsrc r op bs =
     (if inst op \<in> lsrc then
        (case src op of
           None \<Rightarrow> Inl AttributeError
         | Some s \<Rightarrow> Inr (fold (bump r) (srcs op) (bump r s bs)))
      else Inr bs)"

definition scan_dst :: "Instruction set \<Rightarrow> int \<Rightarrow> Op \<Rightarrow> sizes \<Rightarrow> exn + sizes" where
  "scan_dst ldst r op bs =
     (if inst op \<in> ldst then
        (case dst op of
           None \<Rightarrow> Inl AttributeError
         | Some d \<Rightarrow>
             (if inst op \<notin> remote_dst_insts
              then Inr (fold (bump r) (dsts op) (bump r d bs))
              else Inr (bump r d bs)))
      else Inr bs)"

definition scan_op ::
  "Instruction set \<Rightarrow> Instruction set \<Rightarrow> int \<Rightarrow> Op \<Rightarrow> sizes \<Rightarrow> exn + sizes" where
  "scan_op lsrc ldst r op bs =
     (case scan_src lsrc r op bs of
        Inl e \<Rightarrow> Inl e
      | Inr bs1 \<Rightarrow> scan_dst ldst r op bs1)"

definition scan_tb ::
  "Instruction set \<Rightarrow> Instruction set \<Rightarrow> store \<Rightarrow> int \<Rightarrow> Threadblock \<Rightarrow> sizes \<Rightarrow> exn + sizes"
  where
  "scan_tb lsrc ldst h r t bs = foldE (\<lambda>a. scan_op lsrc ldst r (h a)) (ops t) bs"

definition scan_gpu ::
  "Instruction set \<Rightarrow> Instruction set \<Rightarrow> store \<Rightarrow> Gpu \<Rightarrow> sizes \<Rightarrow> exn + sizes" where
  "scan_gpu lsrc ldst h g bs = foldE (scan_tb lsrc ldst h (gpu_rank g)) (threadblocks g) bs"

definition scan_program ::
  "Instruction set \<Rightarrow> Instruction set \<Rightarrow> store \<Rightarrow> Program \<Rightarrow> exn + sizes" where
  "scan_program lsrc ldst h p = foldE (scan_gpu lsrc ldst h) (gpus p) (\<lambda>key. 0)"

definition apply_sizes :: "sizes \<Rightarrow> Gpu \<Rightarrow> Gpu" where
  "apply_sizes bs g =
     g\<lparr>input_chunks := max (bs (gpu_rank g, input_buf)) (input_chunks g),
       output_chunks := max (bs (gpu_rank g, output_buf)) (output_chunks g),
       scratch_chunks := max (bs (gpu_rank g, scratch_buf)) (scratch_chunks g)\<rparr>"

text \<open>Lines 51 to 77 of \<^verbatim>\<open>ir.py\<close> (33 to 59 of \<^verbatim>\<open>ir_mscclpp.py\<close>).\<close>

definition infer_buffer_sizes ::
  "Instruction set \<Rightarrow> Instruction set \<Rightarrow> store \<Rightarrow> Program \<Rightarrow> exn + Program" where
  "infer_buffer_sizes lsrc ldst h p =
     (case scan_program lsrc ldst h p of
        Inl e \<Rightarrow> Inl e
      | Inr bs \<Rightarrow> Inr (p\<lparr>gpus := map (apply_sizes bs) (gpus p)\<rparr>))"

text \<open>
  Lines 79 to 84 of \<^verbatim>\<open>ir.py\<close>; \<^verbatim>\<open>max\<close> of an empty sequence raises. The older module
  has no such step.
\<close>

definition unify_ll_scratch :: "Program \<Rightarrow> exn + Program" where
  "unify_ll_scratch p =
     (if protocol p = ''LL'' then
        (if gpus p = [] then Inl ValueError
         else Inr (p\<lparr>gpus := map (\<lambda>g. g\<lparr>scratch_chunks := Max (set (map scratch_chunks (gpus p)))\<rparr>)
                               (gpus p)\<rparr>))
      else Inr p)"

definition buffer_stage :: "store \<Rightarrow> Program \<Rightarrow> exn + Program" where
  "buffer_stage h p =
     (case infer_buffer_sizes local_src_insts_mscclpp local_dst_insts_mscclpp h p of
        Inl e \<Rightarrow> Inl e
      | Inr p1 \<Rightarrow> unify_ll_scratch p1)"

definition legacy_buffer_stage :: "store \<Rightarrow> Program \<Rightarrow> exn + Program" where
  "legacy_buffer_stage h p = infer_buffer_sizes legacy_local_src_insts legacy_local_dst_insts h p"

subsection \<open>What the scan reads, in the words of the specification\<close>

definition local_refs :: "Instruction set \<Rightarrow> Instruction set \<Rightarrow> Op \<Rightarrow> ChunkRef list" where
  "local_refs lsrc ldst op =
     (if inst op \<in> lsrc then (case src op of None \<Rightarrow> [] | Some s \<Rightarrow> s # srcs op) else []) @
     (if inst op \<in> ldst
      then (case dst op of None \<Rightarrow> []
            | Some d \<Rightarrow> d # (if inst op \<notin> remote_dst_insts then dsts op else []))
      else [])"

definition operands_present :: "Instruction set \<Rightarrow> Instruction set \<Rightarrow> Op \<Rightarrow> bool" where
  "operands_present lsrc ldst op =
     ((inst op \<in> lsrc \<longrightarrow> src op \<noteq> None) \<and> (inst op \<in> ldst \<longrightarrow> dst op \<noteq> None))"

definition tb_refs ::
  "Instruction set \<Rightarrow> Instruction set \<Rightarrow> store \<Rightarrow> Threadblock \<Rightarrow> ChunkRef list" where
  "tb_refs lsrc ldst h t = concat (map (\<lambda>a. local_refs lsrc ldst (h a)) (ops t))"

definition gpu_refs ::
  "Instruction set \<Rightarrow> Instruction set \<Rightarrow> store \<Rightarrow> Gpu \<Rightarrow> ChunkRef list" where
  "gpu_refs lsrc ldst h g = concat (map (tb_refs lsrc ldst h) (threadblocks g))"

definition tb_ok ::
  "Instruction set \<Rightarrow> Instruction set \<Rightarrow> store \<Rightarrow> Threadblock \<Rightarrow> bool" where
  "tb_ok lsrc ldst h t = list_all (\<lambda>a. operands_present lsrc ldst (h a)) (ops t)"

definition gpu_ok ::
  "Instruction set \<Rightarrow> Instruction set \<Rightarrow> store \<Rightarrow> Gpu \<Rightarrow> bool" where
  "gpu_ok lsrc ldst h g = list_all (tb_ok lsrc ldst h) (threadblocks g)"

definition bump2 :: "int \<times> ChunkRef \<Rightarrow> sizes \<Rightarrow> sizes" where
  "bump2 rc bs = bump (fst rc) (snd rc) bs"

definition ranked_refs ::
  "Instruction set \<Rightarrow> Instruction set \<Rightarrow> store \<Rightarrow> Gpu \<Rightarrow> (int \<times> ChunkRef) list" where
  "ranked_refs lsrc ldst h g = map (Pair (gpu_rank g)) (gpu_refs lsrc ldst h g)"

definition largest_end :: "Buffer \<Rightarrow> ChunkRef list \<Rightarrow> int" where
  "largest_end b cs = Max (set (0 # map (\<lambda>c. index c + size_c c) (filter (\<lambda>c. buffer c = b) cs)))"

definition rank_refs ::
  "Instruction set \<Rightarrow> Instruction set \<Rightarrow> store \<Rightarrow> Program \<Rightarrow> int \<Rightarrow> ChunkRef list" where
  "rank_refs lsrc ldst h p r =
     concat (map (gpu_refs lsrc ldst h) (filter (\<lambda>g. gpu_rank g = r) (gpus p)))"

definition with_sizes :: "(Buffer \<Rightarrow> int) \<Rightarrow> Gpu \<Rightarrow> Gpu" where
  "with_sizes need g =
     g\<lparr>input_chunks := max (need input_buf) (input_chunks g),
       output_chunks := max (need output_buf) (output_chunks g),
       scratch_chunks := max (need scratch_buf) (scratch_chunks g)\<rparr>"

text \<open>
  The maximum scratch capacity over all devices after inference by \<^verbatim>\<open>ir.py\<close>: per
  device the larger of the declared and the required capacity.
\<close>

definition ll_scratch :: "store \<Rightarrow> Program \<Rightarrow> int" where
  "ll_scratch h p =
     Max (set (map (\<lambda>g. max (largest_end scratch_buf
                                (rank_refs local_src_insts_mscclpp local_dst_insts_mscclpp h p
                                   (gpu_rank g)))
                             (scratch_chunks g))
              (gpus p)))"

definition scratch_report :: "exn + Program \<Rightarrow> exn + int list" where
  "scratch_report r = map_sum id (\<lambda>p. map scratch_chunks (gpus p)) r"

section \<open>Channel allocator\<close>

text \<open>A loop that builds a list and whose body can raise.\<close>

fun mapE :: "('a \<Rightarrow> exn + 'b) \<Rightarrow> 'a list \<Rightarrow> exn + 'b list" where
  "mapE f [] = Inr []"
| "mapE f (x # xs) =
     (case f x of
        Inl e \<Rightarrow> Inl e
      | Inr y \<Rightarrow> (case mapE f xs of Inl e \<Rightarrow> Inl e | Inr ys \<Rightarrow> Inr (y # ys)))"

definition chan_key_of :: "Channel \<Rightarrow> chan_key" where
  "chan_key_of ch = (srcBuffer ch, dstBuffer ch, ctype ch)"

text \<open>
  Lines 93 to 97: a new key is added at the end of the dict, an entry for a known key
  is appended to that key's list, which stays where it is.
\<close>

fun dict_append :: "'k \<Rightarrow> 'e \<Rightarrow> ('k \<times> 'e list) list \<Rightarrow> ('k \<times> 'e list) list" where
  "dict_append k e [] = [(k, [e])]"
| "dict_append k e ((k', es) # d) =
     (if k' = k then (k', es @ [e]) # d else (k', es) # dict_append k e d)"

definition collect_channels :: "Threadblock list \<Rightarrow> chan_dict" where
  "collect_channels ts =
     fold (\<lambda>t d. fold (\<lambda>ch. dict_append (chan_key_of ch) (tb_id t, connected_to ch))
                    (channels t) d)
          ts []"

text \<open>
  \<^verbatim>\<open>sorted(value)\<close> on a list of (threadblock id, connection target) tuples. Python
  compares tuples by their first differing component. Two entries of one threadblock
  whose targets are a rank and a rank list cannot be ordered (\<^verbatim>\<open>int < list\<close> raises
  \<open>TypeError\<close>), and a comparison sort cannot finish without comparing such a pair;
  entries of different threadblocks are ordered by id alone. Otherwise the order is
  the one of \<open>entry_key\<close>: by id, then by rank, or lexicographically by rank list.
\<close>

fun is_rank :: "target \<Rightarrow> bool" where
  "is_rank (Rank r) = True"
| "is_rank (Ranks rs) = False"

definition mixed_targets :: "chan_entry list \<Rightarrow> bool" where
  "mixed_targets es =
     list_ex (\<lambda>a. list_ex (\<lambda>b. fst a = fst b \<and> is_rank (snd a) \<and> \<not> is_rank (snd b)) es) es"

fun entry_key :: "chan_entry \<Rightarrow> int \<times> bool \<times> int list" where
  "entry_key (t, Rank r) = (t, False, [r])"
| "entry_key (t, Ranks rs) = (t, True, rs)"

definition sorted_entries :: "chan_entry list \<Rightarrow> exn + chan_entry list" where
  "sorted_entries es = (if mixed_targets es then Inl TypeError else Inr (sort_key entry_key es))"

definition sort_dict :: "chan_dict \<Rightarrow> exn + chan_dict" where
  "sort_dict d =
     mapE (\<lambda>(k, es). case sorted_entries es of Inl e \<Rightarrow> Inl e | Inr s \<Rightarrow> Inr (k, s)) d"

text \<open>
  Lines 87 to 100 for one device (61 to 75 of the older module, the same code).
  \<^verbatim>\<open>sorted\<close> is stable, as \<open>sort_key\<close> is.
\<close>

definition alloc_channels :: "Gpu \<Rightarrow> exn + Gpu" where
  "alloc_channels g =
     (let ts = sort_key tb_id (threadblocks g) in
      case sort_dict (collect_channels ts) of
        Inl e \<Rightarrow> Inl e
      | Inr d \<Rightarrow> Inr (g\<lparr>threadblocks := ts, gpu_channels := d\<rparr>))"

definition channel_stage :: "Program \<Rightarrow> exn + Program" where
  "channel_stage p =
     (case mapE alloc_channels (gpus p) of
        Inl e \<Rightarrow> Inl e
      | Inr gs \<Rightarrow> Inr (p\<lparr>gpus := gs\<rparr>))"

text \<open>
  What a threadblock reads from one table entry when it is serialized (lines 240 and
  241): the positions of its entries in the key's list are its channel ids.
\<close>

definition chan_ids :: "chan_entry list \<Rightarrow> int \<Rightarrow> nat list" where
  "chan_ids es t = map fst (filter (\<lambda>ie. fst (snd ie) = t) (enumerate 0 es))"

definition tb_connected :: "chan_entry list \<Rightarrow> int \<Rightarrow> target list" where
  "tb_connected es t = map snd (filter (\<lambda>e. fst e = t) es)"

subsection \<open>Declared channels and the table they determine\<close>

definition decl_list :: "Threadblock list \<Rightarrow> (int \<times> Channel) list" where
  "decl_list ts = concat (map (\<lambda>t. map (Pair (tb_id t)) (channels t)) ts)"

definition declared :: "Gpu \<Rightarrow> (int \<times> Channel) list" where
  "declared g = decl_list (threadblocks g)"

definition entries_for :: "chan_key \<Rightarrow> (int \<times> Channel) list \<Rightarrow> chan_entry list" where
  "entries_for k ds =
     map (\<lambda>d. (fst d, connected_to (snd d))) (filter (\<lambda>d. chan_key_of (snd d) = k) ds)"


definition add_decl :: "int \<times> Channel \<Rightarrow> chan_dict \<Rightarrow> chan_dict" where
  "add_decl d = dict_append (chan_key_of (snd d)) (fst d, connected_to (snd d))"

text \<open>What one device's allocation returns, in terms of its declarations.\<close>

definition any_mixed :: "(int \<times> Channel) list \<Rightarrow> bool" where
  "any_mixed ds = (\<exists>k. mixed_targets (entries_for k ds))"



definition dict_report :: "exn + Program \<Rightarrow> exn + chan_dict list" where
  "dict_report r = map_sum id (\<lambda>p. map gpu_channels (gpus p)) r"

section \<open>Dependency simplification\<close>

text \<open>
  A loop over all threadblocks of all devices whose body only mutates ops: lines such as
  \<^verbatim>\<open>for gpu in program.gpus: for tb in gpu.threadblocks: ...\<close>.
\<close>

definition for_each_tb :: "(Threadblock \<Rightarrow> store \<Rightarrow> store) \<Rightarrow> Program \<Rightarrow> store \<Rightarrow> store" where
  "for_each_tb body p h = fold (\<lambda>g. fold body (threadblocks g)) (gpus p) h"

text \<open>Lines 103 to 107: a wait no longer depends on signals.\<close>

definition drop_signal_deps :: "oid \<Rightarrow> store \<Rightarrow> store" where
  "drop_signal_deps a h =
     (if inst (h a) = wait
      then h(a := (h a)\<lparr>depends := filter (\<lambda>d. inst (h d) \<noteq> signal) (depends (h a))\<rparr>)
      else h)"

definition drop_signal_stage :: "Program \<Rightarrow> store \<Rightarrow> store" where
  "drop_signal_stage p h = for_each_tb (\<lambda>t. fold drop_signal_deps (ops t)) p h"

text \<open>
  Lines 112 to 117, the loop over the ops of one threadblock with its
  \<open>running_depends\<close>. \<^verbatim>\<open>dep not in running_depends\<close> compares ops, and two ops are equal
  exactly when they are the same object.
\<close>

fun filter_redundant :: "oid list \<Rightarrow> oid list \<Rightarrow> store \<Rightarrow> store" where
  "filter_redundant [] running_depends h = h"
| "filter_redundant (a # as) running_depends h =
     (let ds = filter (\<lambda>d. d \<notin> set running_depends) (depends (h a))
      in filter_redundant as (running_depends @ ds) (h(a := (h a)\<lparr>depends := ds\<rparr>)))"

definition filter_redundant_stage :: "Program \<Rightarrow> store \<Rightarrow> store" where
  "filter_redundant_stage p h = for_each_tb (\<lambda>t. filter_redundant (ops t) []) p h"

definition simplify_stage :: "Program \<Rightarrow> store \<Rightarrow> store" where
  "simplify_stage p h = filter_redundant_stage p (drop_signal_stage p h)"

subsection \<open>The filter in the words of the specification\<close>

definition prog_tbs :: "Program \<Rightarrow> Threadblock list" where
  "prog_tbs p = concat (map threadblocks (gpus p))"

definition all_ops :: "Program \<Rightarrow> oid list" where
  "all_ops p = concat (map ops (prog_tbs p))"

text \<open>
  No dependency of the op at position j is a dependency of an op at an earlier position.
\<close>

definition no_repeated_dep :: "store \<Rightarrow> oid list \<Rightarrow> bool" where
  "no_repeated_dep h as =
     (\<forall>j<length as. \<forall>i<j. set (depends (h (as ! j))) \<inter> set (depends (h (as ! i))) = {})"

text \<open>
  The dependencies of the op at position j without those listed by the ops before it.
\<close>

definition reduced_deps :: "store \<Rightarrow> oid list \<Rightarrow> nat \<Rightarrow> oid list" where
  "reduced_deps h as j =
     filter (\<lambda>d. d \<notin> set (concat (map (\<lambda>a. depends (h a)) (take j as)))) (depends (h (as ! j)))"

subsection \<open>Dependency lists only shrink\<close>

definition shrinks :: "store \<Rightarrow> store \<Rightarrow> bool" where
  "shrinks h h' = (\<forall>x. set (depends (h' x)) \<subseteq> set (depends (h x)))"

section \<open>Synchronization lowering and renumbering\<close>

definition insts_no_need_sync_barrier :: "Instruction set" where
  "insts_no_need_sync_barrier = {copy_packet, reduce_packet, reduce_send_packet, barrier}"

text \<open>
  A loop that rebuilds a list while it mutates state: the body returns the new element
  and the new state.
\<close>

fun map_accum :: "('a \<Rightarrow> 's \<Rightarrow> 'b \<times> 's) \<Rightarrow> 'a list \<Rightarrow> 's \<Rightarrow> 'b list \<times> 's" where
  "map_accum f [] s = ([], s)"
| "map_accum f (x # xs) s =
     (case f x s of (y, s1) \<Rightarrow> (case map_accum f xs s1 of (ys, s2) \<Rightarrow> (y # ys, s2)))"

text \<open>
  The body of the loop of lines 124 to 140. The state is the store, the next unused
  address and \<open>new_ops\<close>. A no-op that is appended is a new object, at an address that
  holds no op of the program; a no-op that is not appended is dropped with the
  iteration. \<^verbatim>\<open>new_ops[-1].depends.extend(...)\<close> mutates the op that is last in \<open>new_ops\<close>.
\<close>

definition lower_op :: "oid \<Rightarrow> store \<times> nat \<times> oid list \<Rightarrow> store \<times> nat \<times> oid list" where
  "lower_op a s =
     (case s of (h, n, new_ops) \<Rightarrow>
        if inst (h a) \<in> insts_no_need_sync_barrier then (h, n, new_ops @ [a])
        else
          let ds = filter (\<lambda>d. inst (h d) \<noteq> barrier) (depends (h a)) in
          if new_ops \<noteq> [] \<and>
             (inst (h (last new_ops)) = barrier \<or> inst (h (last new_ops)) = nop)
          then (h(last new_ops :=
                    (h (last new_ops))\<lparr>depends := depends (h (last new_ops)) @ ds\<rparr>),
                n, new_ops @ [a])
          else if ds \<noteq> [] then (h(n := new_nop\<lparr>depends := ds\<rparr>), Suc n, new_ops @ [n, a])
          else (h, n, new_ops @ [a]))"

definition lower_tb :: "Threadblock \<Rightarrow> store \<times> nat \<Rightarrow> Threadblock \<times> store \<times> nat" where
  "lower_tb t s =
     (case fold lower_op (ops t) (fst s, snd s, []) of
        (h, n, new_ops) \<Rightarrow> (t\<lparr>ops := new_ops\<rparr>, h, n))"

definition lower_gpu :: "Gpu \<Rightarrow> store \<times> nat \<Rightarrow> Gpu \<times> store \<times> nat" where
  "lower_gpu g s =
     (case map_accum lower_tb (threadblocks g) s of
        (ts, s') \<Rightarrow> (g\<lparr>threadblocks := ts\<rparr>, s'))"

text \<open>
  An address above every op of the program and every op one of them depends on: what
  the allocator of new objects guarantees.
\<close>

definition fresh_oid :: "Program \<Rightarrow> store \<Rightarrow> nat" where
  "fresh_oid p h =
     Suc (fold max (all_ops p @ concat (map (\<lambda>a. depends (h a)) (all_ops p))) 0)"

text \<open>Lines 121 to 141.\<close>

definition lower_stage :: "Program \<Rightarrow> store \<Rightarrow> Program \<times> store" where
  "lower_stage p h =
     (case map_accum lower_gpu (gpus p) (h, fresh_oid p h) of
        (gs, s) \<Rightarrow> (p\<lparr>gpus := gs\<rparr>, fst s))"

text \<open>Lines 144 to 148.\<close>

definition renumber_tb :: "Threadblock \<Rightarrow> store \<Rightarrow> store" where
  "renumber_tb t h =
     fold (\<lambda>ia h. h(snd ia := (h (snd ia))\<lparr>step := int (fst ia), tb := tb_id t\<rparr>))
          (enumerate 0 (ops t)) h"

definition renumber_stage :: "Program \<Rightarrow> store \<Rightarrow> store" where
  "renumber_stage p h = for_each_tb renumber_tb p h"

text \<open>
  Lines 102 to 148 together. Lines 150 to 156 compute \<open>nchannels\<close>, which nothing reads.
\<close>

definition sync_stages :: "Program \<Rightarrow> store \<Rightarrow> Program \<times> store" where
  "sync_stages p h =
     (case lower_stage p (simplify_stage p h) of
        (p', h') \<Rightarrow> (p', renumber_stage p' h'))"

subsection \<open>Markers\<close>




subsection \<open>Invariants of the lowering loop\<close>





subsection \<open>Where the dependencies on a lowered list come from\<close>

text \<open>
  \<open>h0\<close> is the store when the stage starts and \<open>n0\<close> the first address it allocates.
  Every dependency an element of the list holds is one the element had at the start, or
  one that the element right after it had at the start.
\<close>

definition own :: "store \<Rightarrow> nat \<Rightarrow> oid \<Rightarrow> oid \<Rightarrow> bool" where
  "own h0 n0 d x = (x < n0 \<and> d \<in> set (depends (h0 x)))"






subsection \<open>One step of the renumbering loop\<close>


section \<open>Serializer\<close>

text \<open>
  \<^verbatim>\<open>dump_to_json\<close> builds a tree of dicts, lists, strings, integers, booleans and
  \<open>None\<close> and hands it to \<^verbatim>\<open>json.dumps\<close>. The tree is the document; a dict keeps
  its keys in insertion order.
\<close>

datatype json =
    JNull | JBool bool | JInt int | JStr string | JList "json list"
  | JObj "(string \<times> json) list"

definition bindE :: "exn + 'a \<Rightarrow> ('a \<Rightarrow> exn + 'b) \<Rightarrow> exn + 'b" where
  "bindE m f = (case m of Inl e \<Rightarrow> Inl e | Inr x \<Rightarrow> f x)"

text \<open>Reading an attribute of \<open>op.src\<close> or \<open>op.dst\<close>, which may be \<open>None\<close>.\<close>

definition attr :: "'a option \<Rightarrow> exn + 'a" where
  "attr x = (case x of None \<Rightarrow> Inl AttributeError | Some v \<Rightarrow> Inr v)"

text \<open>
  What the serializer uses of \<^verbatim>\<open>msccl.language.types\<close>, a module outside the two
  files: the \<^verbatim>\<open>value\<close> of the members of the three enumerations and the method
  \<^verbatim>\<open>Op.cnt\<close>. The serializer takes them as a parameter.
\<close>

record types_module =
  buffer_value :: "Buffer \<Rightarrow> string"
  ctype_value :: "ChannelType \<Rightarrow> string"
  inst_value :: "Instruction \<Rightarrow> string"
  op_cnt :: "Op \<Rightarrow> exn + int"

text \<open>
  The dicts \<open>obj\<close> of lines 202 to 207 and 236 to 242; the second kind has the key
  \<open>chanIds\<close> in addition.
\<close>

record chan_obj =
  srcbuff :: string
  dstbuff :: string
  type_value :: string
  connectedTo :: "target list"

record tb_chan_obj = chan_obj +
  chanIds :: "nat list"

type_synonym tb_channel_dict = "(chan_key \<times> tb_chan_obj) list"

definition remove_empty_fields :: "(string \<times> json) list \<Rightarrow> (string \<times> json) list" where
  "remove_empty_fields d = filter (\<lambda>kv. snd kv \<notin> set [JNull, JStr [], JList [], JObj []]) d"

text \<open>
  Lines 163 to 182. The key is looked up when the comprehension is evaluated: once for
  a multicast channel type, once per chunk otherwise. \<^verbatim>\<open>set(ele)\<close> raises when \<open>ele\<close>
  is a rank and not a list; \<^verbatim>\<open>ele == c.rank\<close> is false when \<open>ele\<close> is a list.
\<close>

definition nvls_match :: "int list \<Rightarrow> nat \<times> target \<Rightarrow> exn + (nat \<times> bool)" where
  "nvls_match ranks ie =
     (case snd ie of
        Rank r \<Rightarrow> Inl TypeError
      | Ranks rs \<Rightarrow> Inr (fst ie, set rs = set ranks))"

definition get_channel_ids ::
  "ChunkRef list \<Rightarrow> tb_channel_dict \<Rightarrow> Buffer \<Rightarrow> Buffer \<Rightarrow> ChannelType \<Rightarrow> exn + json list"
  where
  "get_channel_ids chunk_list d src_buffer dst_buffer chan_type =
     (let key = (src_buffer, dst_buffer, chan_type) in
      if chan_type = nvls then
        (let ranks = map rank chunk_list in
         case map_of d key of
           None \<Rightarrow> Inl KeyError
         | Some obj \<Rightarrow>
             bindE (mapE (nvls_match ranks) (enumerate 0 (connectedTo obj)))
               (\<lambda>ms. Inr (map (\<lambda>m. JObj [(''id'', JInt (int (fst m)))]) (filter snd ms))))
      else
        bindE (mapE (\<lambda>c. case map_of d key of
                            None \<Rightarrow> Inl KeyError
                          | Some obj \<Rightarrow>
                              Inr (map (\<lambda>ie. JObj [(''id'', JInt (int (fst ie))),
                                                    (''off'', JInt (index c))])
                                     (filter (\<lambda>ie. snd ie = Rank (rank c))
                                        (enumerate 0 (connectedTo obj)))))
                     chunk_list)
          (\<lambda>xs. Inr (concat xs)))"

text \<open>The local variables of the loop over the ops of a threadblock, as line 249 to 256 set them.\<close>

record op_locals =
  o_buff :: json
  i_buff :: json
  dst_channel_ids :: "json list"
  src_channel_ids :: "json list"
  srcs_v :: "json list"
  dsts_v :: "json list"
  src_v :: "ChunkRef option"
  dst_v :: "ChunkRef option"

definition no_locals :: op_locals where
  "no_locals =
     \<lparr>o_buff = JNull, i_buff = JNull, dst_channel_ids = [], src_channel_ids = [],
      srcs_v = [], dsts_v = [], src_v = None, dst_v = None\<rparr>"

definition buff_pair :: "types_module \<Rightarrow> Buffer \<Rightarrow> Buffer \<Rightarrow> json" where
  "buff_pair tm s d = JObj [(''src'', JStr (buffer_value tm s)), (''dst'', JStr (buffer_value tm d))]"

definition chunk_list_json :: "types_module \<Rightarrow> ChunkRef list \<Rightarrow> json list" where
  "chunk_list_json tm cs =
     map (\<lambda>x. JObj [(''buff'', JStr (buffer_value tm (buffer x))), (''off'', JInt (index x))]) cs"

text \<open>\<^verbatim>\<open>op.dsts[0]\<close>.\<close>

definition first_dst :: "Op \<Rightarrow> exn + ChunkRef" where
  "first_dst op = (case dsts op of [] \<Rightarrow> Inl IndexError | c # cs \<Rightarrow> Inr c)"

text \<open>
  The branches of lines 259 to 340 that set local variables, in the order of the source.
  The two branches that build \<open>instr\<close> themselves (no-op and barrier) are in \<open>dump_op\<close>.
\<close>

definition op_branches :: "types_module \<Rightarrow> tb_channel_dict \<Rightarrow> Op \<Rightarrow> exn + op_locals" where
  "op_branches tm d op =
     (if inst op = signal \<or> inst op = flush then
        bindE (attr (src op)) (\<lambda>s. bindE (attr (dst op)) (\<lambda>t.
        bindE (get_channel_ids (dsts op) d (buffer s) (buffer t) (channel_type op)) (\<lambda>ids.
        Inr (no_locals\<lparr>dst_channel_ids := ids, o_buff := buff_pair tm (buffer s) (buffer t)\<rparr>))))
      else if inst op = wait then
        bindE (attr (src op)) (\<lambda>s. bindE (attr (dst op)) (\<lambda>t.
        bindE (get_channel_ids (srcs op) d (buffer s) (buffer t) (channel_type op)) (\<lambda>ids.
        Inr (no_locals\<lparr>src_channel_ids := ids, i_buff := buff_pair tm (buffer s) (buffer t)\<rparr>))))
      else if inst op = read_reduce_copy then
        bindE (attr (src op)) (\<lambda>s. bindE (attr (dst op)) (\<lambda>t.
        bindE (get_channel_ids (srcs op) d (buffer s) (buffer t) (channel_type op)) (\<lambda>ids.
        Inr (no_locals\<lparr>src_channel_ids := ids, i_buff := buff_pair tm (buffer s) (buffer t),
                        dst_v := dst op, src_v := dst op\<rparr>))))
      else if inst op = read_reduce_copy_send then
        bindE (attr (src op)) (\<lambda>s. bindE (attr (dst op)) (\<lambda>t.
        bindE (get_channel_ids (srcs op) d (buffer s) (buffer t) (channel_type op)) (\<lambda>ids.
        bindE (first_dst op) (\<lambda>t0.
        bindE (get_channel_ids (dsts op) d (buffer t) (buffer t0) (channel_type op)) (\<lambda>ods.
        Inr (no_locals\<lparr>src_channel_ids := ids, dst_channel_ids := ods,
                        i_buff := buff_pair tm (buffer s) (buffer t),
                        o_buff := buff_pair tm (buffer t) (buffer t0),
                        dst_v := dst op, src_v := dst op\<rparr>))))))
      else if inst op = reduce_send \<or> inst op = reduce_send_packet then
        bindE (attr (dst op)) (\<lambda>t. bindE (first_dst op) (\<lambda>t0.
        bindE (get_channel_ids (dsts op) d (buffer t) (buffer t0) sm) (\<lambda>ods.
        Inr (no_locals\<lparr>dst_channel_ids := ods, o_buff := buff_pair tm (buffer t) (buffer t0),
                        srcs_v := chunk_list_json tm (srcs op),
                        dst_v := dst op, src_v := dst op\<rparr>))))
      else if inst op = reduce \<or> inst op = reduce_packet then
        Inr (no_locals\<lparr>srcs_v := chunk_list_json tm (srcs op), dst_v := dst op, src_v := dst op\<rparr>)
      else if inst op = nop then Inr no_locals
      else if inst op = barrier then Inr no_locals
      else if inst op = put \<or> inst op = put_packet \<or> inst op = put_with_signal
              \<or> inst op = put_with_signal_and_flush then
        bindE (attr (src op)) (\<lambda>s. bindE (attr (dst op)) (\<lambda>t.
        bindE (get_channel_ids (dsts op) d (buffer s) (buffer t) (channel_type op)) (\<lambda>ods.
        Inr (no_locals\<lparr>dst_channel_ids := ods, o_buff := buff_pair tm (buffer s) (buffer t),
                        srcs_v := chunk_list_json tm (srcs op)\<rparr>))))
      else if inst op = get then
        bindE (attr (src op)) (\<lambda>s. bindE (attr (dst op)) (\<lambda>t.
        bindE (get_channel_ids (srcs op) d (buffer s) (buffer t) (channel_type op)) (\<lambda>ids.
        Inr (no_locals\<lparr>src_channel_ids := ids, i_buff := buff_pair tm (buffer s) (buffer t),
                        dsts_v := chunk_list_json tm (dsts op)\<rparr>))))
      else if inst op = copy \<or> inst op = copy_packet \<or> inst op = transform_to_packet then
        Inr (no_locals\<lparr>src_v := src op, dst_v := dst op\<rparr>)
      else if inst op = group_load_reduce_store then
        bindE (attr (src op)) (\<lambda>s. bindE (attr (dst op)) (\<lambda>t.
        bindE (get_channel_ids (srcs op) d (buffer s) (buffer t) (channel_type op)) (\<lambda>ids.
        bindE (get_channel_ids (dsts op) d (buffer s) (buffer t) (channel_type op)) (\<lambda>ods.
        Inr (no_locals\<lparr>src_v := src op, dst_v := dst op, src_channel_ids := ids,
                        dst_channel_ids := ods\<rparr>)))))
      else Inr no_locals)"

definition opt_json :: "('a \<Rightarrow> json) \<Rightarrow> 'a option \<Rightarrow> json" where
  "opt_json f x = (case x of None \<Rightarrow> JNull | Some v \<Rightarrow> f v)"

definition list_or_none :: "json list \<Rightarrow> json" where
  "list_or_none xs = (if xs \<noteq> [] then JList xs else JNull)"

text \<open>Lines 342 to 358: the dict of an op that is neither a no-op nor a barrier.\<close>

definition instr_fields :: "types_module \<Rightarrow> Op \<Rightarrow> op_locals \<Rightarrow> int \<Rightarrow> (string \<times> json) list" where
  "instr_fields tm op l c =
     [(''name'', JStr (inst_value tm (inst op))),
      (''i_buff'', i_buff l),
      (''i_cids'', JList (src_channel_ids l)),
      (''o_buff'', o_buff l),
      (''o_cids'', JList (dst_channel_ids l)),
      (''src'', opt_json (\<lambda>s. JInt (rank s)) (src_v l)),
      (''srcs'', list_or_none (srcs_v l)),
      (''dsts'', list_or_none (dsts_v l)),
      (''srcbuff'', opt_json (\<lambda>s. JStr (buffer_value tm (buffer s))) (src_v l)),
      (''srcoff'', opt_json (\<lambda>s. JInt (index s)) (src_v l)),
      (''dst'', opt_json (\<lambda>s. JInt (rank s)) (dst_v l)),
      (''dstbuff'', opt_json (\<lambda>s. JStr (buffer_value tm (buffer s))) (dst_v l)),
      (''dstoff'', opt_json (\<lambda>s. JInt (index s)) (dst_v l)),
      (''ctype'', JStr (ctype_value tm (channel_type op))),
      (''cnt'', JInt c)]"

definition dep_json :: "store \<Rightarrow> oid \<Rightarrow> json" where
  "dep_json h d = JObj [(''tb'', JInt (tb (h d))), (''step'', JInt (step (h d)))]"

text \<open>
  The body of the loop of lines 248 to 359 for the op at address \<open>a\<close>: \<open>None\<close> when the
  op is skipped (line 257), otherwise the dict appended to \<open>ops\<close>. Looking up a key
  that \<open>op.extra\<close> lacks raises \<open>KeyError\<close>.
\<close>

definition dump_op :: "types_module \<Rightarrow> store \<Rightarrow> tb_channel_dict \<Rightarrow> oid \<Rightarrow> exn + json option" where
  "dump_op tm h d a =
     (let op = h a in
      if tb op = - 1 then Inr None
      else
        bindE (op_branches tm d op) (\<lambda>l.
        bindE (if inst op = nop then
                 Inr [(''name'', JStr (inst_value tm (inst op))),
                      (''deps'', JList (map (dep_json h) (depends op)))]
               else if inst op = barrier then
                 (case extra_tb_list op of
                    None \<Rightarrow> Inl KeyError
                  | Some tbs \<Rightarrow>
                      (case extra_barrier_id op of
                         None \<Rightarrow> Inl KeyError
                       | Some b \<Rightarrow>
                           Inr [(''name'', JStr (inst_value tm (inst op))),
                                (''nthread_blocks'', JInt (int (length tbs))),
                                (''barrier_id'', JInt b)]))
               else bindE (op_cnt tm op) (\<lambda>c. Inr (instr_fields tm op l c)))
          (\<lambda>instr. Inr (Some (JObj (remove_empty_fields instr))))))"

text \<open>\<^verbatim>\<open>sorted(list(eles))\<close> of line 209; \<^verbatim>\<open>list\<close> of a rank raises.\<close>

definition sorted_ranks :: "target \<Rightarrow> exn + target" where
  "sorted_ranks t = (case t of Rank r \<Rightarrow> Inl TypeError | Ranks rs \<Rightarrow> Inr (Ranks (sort rs)))"

text \<open>Lines 201 to 210 for one item of the device's channel table.\<close>

definition gpu_chan_obj :: "types_module \<Rightarrow> chan_key \<times> chan_entry list \<Rightarrow> exn + chan_obj" where
  "gpu_chan_obj tm kv =
     (case kv of ((srcBuf, dstBuf, ty), chs) \<Rightarrow>
        let obj = \<lparr>srcbuff = buffer_value tm srcBuf, dstbuff = buffer_value tm dstBuf,
                   type_value = ctype_value tm ty, connectedTo = map snd chs\<rparr>
        in if ty = nvls
           then bindE (mapE sorted_ranks (connectedTo obj)) (\<lambda>cs. Inr (obj\<lparr>connectedTo := cs\<rparr>))
           else Inr obj)"

definition target_json :: "target \<Rightarrow> json" where
  "target_json t = (case t of Rank r \<Rightarrow> JInt r | Ranks rs \<Rightarrow> JList (map JInt rs))"

text \<open>
  Lines 215 to 227: what an element of the device's \<open>channels\<close> list ends up as. The
  three maxima are those of lines 187 to 189.
\<close>

definition render_channel :: "types_module \<Rightarrow> int \<Rightarrow> int \<Rightarrow> int \<Rightarrow> chan_obj \<Rightarrow> json" where
  "render_channel tm max_input max_output max_scratch chan =
     (if type_value chan = ''nvls'' then
        (let buff = srcbuff chan;
             buffer_size = (if buff = buffer_value tm input_buf then max_input
                            else if buff = buffer_value tm output_buf then max_output
                            else max_scratch)
         in JObj [(''buff'', JStr buff),
                  (''type'', JStr (type_value chan)),
                  (''rankGroups'',
                     JList (map (\<lambda>ranks. JObj [(''size'', JInt buffer_size),
                                                (''ranks'', target_json ranks)])
                              (connectedTo chan)))])
      else JObj [(''srcbuff'', JStr (srcbuff chan)),
                 (''dstbuff'', JStr (dstbuff chan)),
                 (''type'', JStr (type_value chan)),
                 (''connectedTo'', JList (map target_json (connectedTo chan)))])"

text \<open>Lines 201 to 227: the device's \<open>channels\<close> list.\<close>

definition gpu_channels_json :: "types_module \<Rightarrow> int \<Rightarrow> int \<Rightarrow> int \<Rightarrow> Gpu \<Rightarrow> exn + json list" where
  "gpu_channels_json tm max_input max_output max_scratch g =
     bindE (mapE (gpu_chan_obj tm) (gpu_channels g)) (\<lambda>objs.
       Inr (map (render_channel tm max_input max_output max_scratch)
              (sort_key (\<lambda>x. (srcbuff x, dstbuff x))
                 (filter (\<lambda>x. type_value x \<noteq> ''none'') objs))))"

text \<open>
  Lines 234 to 245: the items of \<open>tb_channel_dict\<close>, in the order of the device's
  table; \<open>tb_channels\<close> holds the same dicts in the same order.
\<close>

definition tb_chan_obj :: "types_module \<Rightarrow> int \<Rightarrow> chan_key \<times> chan_entry list \<Rightarrow> chan_key \<times> tb_chan_obj"
  where
  "tb_chan_obj tm t kv =
     (case kv of ((srcBuf, dstBuf, ty), chs) \<Rightarrow>
        ((srcBuf, dstBuf, ty),
         \<lparr>srcbuff = buffer_value tm srcBuf, dstbuff = buffer_value tm dstBuf,
          type_value = ctype_value tm ty, connectedTo = tb_connected chs t,
          chanIds = chan_ids chs t\<rparr>))"

definition tb_channel_dict_of :: "types_module \<Rightarrow> Gpu \<Rightarrow> int \<Rightarrow> tb_channel_dict" where
  "tb_channel_dict_of tm g t =
     filter (\<lambda>ko. length (chanIds (snd ko)) > 0) (map (tb_chan_obj tm t) (gpu_channels g))"

definition tb_channel_json :: "tb_chan_obj \<Rightarrow> json" where
  "tb_channel_json x =
     JObj [(''src'', JStr (srcbuff x)), (''dst'', JStr (dstbuff x)),
           (''ctype'', JStr (type_value x)),
           (''cids'', JList (map (\<lambda>i. JInt (int i)) (chanIds x)))]"

text \<open>
  Lines 229 to 370 for one threadblock: \<open>None\<close> when it is skipped (line 230),
  otherwise the dict appended to the device's \<open>threadblocks\<close> list.
\<close>

definition dump_tb :: "types_module \<Rightarrow> store \<Rightarrow> Gpu \<Rightarrow> Threadblock \<Rightarrow> exn + json option" where
  "dump_tb tm h g t =
     (if tb_id t < 0 then Inr None
      else
        let d = tb_channel_dict_of tm g (tb_id t);
            tb_channels = sort_key (\<lambda>x. (srcbuff x, dstbuff x))
                            (filter (\<lambda>x. type_value x \<noteq> ''none'') (map snd d))
        in bindE (mapE (dump_op tm h d) (ops t)) (\<lambda>os.
             Inr (Some (JObj [(''id'', JInt (tb_id t)),
                              (''ops'', JList (List.map_filter (\<lambda>x. x) os)),
                              (''channels'', JList (map tb_channel_json tb_channels))]))))"

text \<open>Lines 191 to 371 for the device at position \<open>i\<close>.\<close>

definition dump_gpu ::
  "types_module \<Rightarrow> store \<Rightarrow> Program \<Rightarrow> int \<Rightarrow> int \<Rightarrow> int \<Rightarrow> nat \<times> Gpu \<Rightarrow> exn + json" where
  "dump_gpu tm h p max_input max_output max_scratch ig =
     (case ig of (i, g) \<Rightarrow>
        bindE (gpu_channels_json tm max_input max_output max_scratch g) (\<lambda>cs.
        bindE (mapE (dump_tb tm h g) (threadblocks g)) (\<lambda>ts.
          Inr (JObj [(''id'', JInt (int i)),
                     (''inputChunks'', JInt (input_chunks g)),
                     (''outputChunks'', JInt (output_chunks g)),
                     (''scratchChunks'', JInt (scratch_chunks g)),
                     (''chunkGroups'', JInt (num_chunk_groups p)),
                     (''threadblocks'', JList (List.map_filter (\<lambda>x. x) ts)),
                     (''channels'', JList cs)]))))"

text \<open>
  Lines 160 to 383. \<^verbatim>\<open>max\<close> of an empty sequence raises. The result is the dict passed
  to \<^verbatim>\<open>json.dumps\<close>.
\<close>

definition dump_to_json :: "types_module \<Rightarrow> Program \<Rightarrow> store \<Rightarrow> exn + json" where
  "dump_to_json tm p h =
     (if gpus p = [] then Inl ValueError
      else
        let max_scratch = Max (set (map scratch_chunks (gpus p)));
            max_input = Max (set (map input_chunks (gpus p)));
            max_output = Max (set (map output_chunks (gpus p)))
        in bindE (mapE (dump_gpu tm h p max_input max_output max_scratch) (enumerate 0 (gpus p)))
             (\<lambda>gs. Inr (JObj [(''name'', JStr (name p)),
                              (''collective'', JStr (collective p)),
                              (''protocol'', JStr (protocol p)),
                              (''inplace'', JBool (inplace p)),
                              (''gpus'', JList gs),
                              (''num_threads_per_block'', JInt (num_threads_per_block p)),
                              (''use_double_scratch_buffer'', JBool (use_double_scratch_buffer p)),
                              (''min_message_size'', JInt (min_message_size p)),
                              (''max_message_size'', JInt (max_message_size p))])))"

text \<open>Lines 50 to 156: the stages before the serializer, on the program and the store.\<close>

definition ir_stages :: "Program \<Rightarrow> store \<Rightarrow> exn + Program \<times> store" where
  "ir_stages p h =
     bindE (buffer_stage h p) (\<lambda>p1.
     bindE (channel_stage p1) (\<lambda>p2. Inr (sync_stages p2 h)))"

text \<open>Lines 50 to 157: the whole pass.\<close>

definition ir_to_json :: "types_module \<Rightarrow> Program \<Rightarrow> store \<Rightarrow> exn + json" where
  "ir_to_json tm p h = bindE (ir_stages p h) (\<lambda>ph. dump_to_json tm (fst ph) (snd ph))"

section \<open>Serializer of the older module\<close>









subsection \<open>Reading a document\<close>


text \<open>The value under a key of a dict (\<open>JNull\<close> when there is none) and the elements of a list.\<close>

definition field :: "string \<Rightarrow> json \<Rightarrow> json" where
  "field k j = (case j of JObj fs \<Rightarrow> (case map_of fs k of Some v \<Rightarrow> v | None \<Rightarrow> JNull) | _ \<Rightarrow> JNull)"

definition items :: "json \<Rightarrow> json list" where
  "items j = (case j of JList xs \<Rightarrow> xs | _ \<Rightarrow> [])"

section \<open>Concrete programs\<close>

definition chunk :: "int \<Rightarrow> Buffer \<Rightarrow> int \<Rightarrow> int \<Rightarrow> ChunkRef" where
  "chunk r b i n = \<lparr>rank = r, buffer = b, index = i, size_c = n\<rparr>"

definition mk_tb :: "int \<Rightarrow> oid list \<Rightarrow> Channel list \<Rightarrow> Threadblock" where
  "mk_tb i os cs = \<lparr>tb_channel = 0, ops = os, tb_id = i, channels = cs\<rparr>"

definition mk_gpu :: "int \<Rightarrow> Threadblock list \<Rightarrow> int \<Rightarrow> int \<Rightarrow> int \<Rightarrow> Gpu" where
  "mk_gpu r ts i out s =
     \<lparr>gpu_rank = r, threadblocks = ts, input_chunks = i, output_chunks = out,
      scratch_chunks = s, gpu_channels = []\<rparr>"

definition mk_program :: "string \<Rightarrow> Gpu list \<Rightarrow> Program" where
  "mk_program proto gs =
     \<lparr>name = ''example'', collective = ''allreduce'', protocol = proto, inplace = False,
      num_chunk_groups = 1, num_threads_per_block = 1024, use_double_scratch_buffer = False,
      min_message_size = 0, max_message_size = 1024, gpus = gs\<rparr>"

text \<open>
  Two devices under the LL protocol. Device 0 copies input[0..2) to scratch[1..3);
  device 1 puts input[0..1) to the scratch buffer of device 0 and declares one scratch
  chunk and one output chunk.
\<close>

definition exA_store :: store where
  "exA_store =
     (\<lambda>a. new_nop)
       (0 := new_nop\<lparr>inst := copy, op_rank := 0, src := Some (chunk 0 input_buf 0 2),
                     dst := Some (chunk 0 scratch_buf 1 2)\<rparr>,
        1 := new_nop\<lparr>inst := put, op_rank := 1, src := Some (chunk 1 input_buf 0 1),
                     dst := Some (chunk 0 scratch_buf 4 1), channel_type := sm,
                     dsts := [chunk 0 scratch_buf 4 1]\<rparr>)"

definition exA :: Program where
  "exA = mk_program ''LL''
           [mk_gpu 0 [mk_tb 0 [0] []] 0 0 0, mk_gpu 1 [mk_tb 0 [1] []] 0 1 1]"

text \<open>
  One device whose threadblock 0 declares three multicast channels with the same
  buffers and the rank lists [1,2], [2,1] and [1,3].
\<close>

definition nvls_chan :: "int list \<Rightarrow> Channel" where
  "nvls_chan rs =
     \<lparr>srcBuffer = input_buf, dstBuffer = input_buf, ctype = nvls, connected_to = Ranks rs\<rparr>"

definition exM_gpu :: Gpu where
  "exM_gpu = mk_gpu 0 [mk_tb 0 [] [nvls_chan [1, 2], nvls_chan [2, 1], nvls_chan [1, 3]]] 4 4 0"

text \<open>
  Two programs with one device each, declaring the same channels per threadblock in a
  different order (of the threadblocks and of the channels of threadblock 1).
\<close>

definition sm_chan :: "Buffer \<Rightarrow> Buffer \<Rightarrow> int \<Rightarrow> Channel" where
  "sm_chan s d r = \<lparr>srcBuffer = s, dstBuffer = d, ctype = sm, connected_to = Rank r\<rparr>"





text \<open>
  One device with two threadblocks. Threadblock 0 issues a put, a packet copy and a wait
  that depend on ops of threadblock 1: a copy (op 7), a reduce (op 8), a signal (op 9)
  and a barrier (op 10).
\<close>

definition exD_store :: store where
  "exD_store =
     (\<lambda>a. new_nop)
       (1 := new_nop\<lparr>inst := put, depends := [7]\<rparr>,
        2 := new_nop\<lparr>inst := copy_packet, depends := [7, 8]\<rparr>,
        3 := new_nop\<lparr>inst := wait, depends := [7, 8, 9, 10]\<rparr>,
        7 := new_nop\<lparr>inst := copy\<rparr>,
        8 := new_nop\<lparr>inst := reduce\<rparr>,
        9 := new_nop\<lparr>inst := signal\<rparr>,
        10 := new_nop\<lparr>inst := barrier\<rparr>)"

definition exD :: Program where
  "exD = mk_program ''Simple''
           [mk_gpu 0 [mk_tb 0 [1, 2, 3] [], mk_tb 1 [7, 8, 9, 10] []] 0 0 0]"





text \<open>
  Modelled from the spec: one value of the serializer's parameter, used to run the
  examples. The spec spells the point-to-point and multicast channel kinds "sm" and
  "nvls" and the put instruction "put", and the source compares the value of a channel
  type with "none" and "nvls". The other strings, and \<open>cnt\<close> as the size of the source
  chunk, else of the destination chunk, else 0, stand for what \<^verbatim>\<open>msccl.language.types\<close>
  defines. The theorems about the serializer hold for every value of the parameter.
\<close>

definition example_types :: types_module where
  "example_types =
     \<lparr>buffer_value = (\<lambda>b. case b of input_buf \<Rightarrow> ''i'' | output_buf \<Rightarrow> ''o'' | scratch_buf \<Rightarrow> ''s''),
      ctype_value = (\<lambda>c. case c of proxy \<Rightarrow> ''proxy'' | sm \<Rightarrow> ''sm'' | none \<Rightarrow> ''none''
                                   | nvls \<Rightarrow> ''nvls''),
      inst_value = (\<lambda>i. case i of
          nop \<Rightarrow> ''nop'' | read_reduce_copy \<Rightarrow> ''rrc'' | read_reduce_copy_send \<Rightarrow> ''rrcs''
        | reduce_send \<Rightarrow> ''rs'' | copy \<Rightarrow> ''copy'' | reduce \<Rightarrow> ''reduce''
        | copy_packet \<Rightarrow> ''cpkt'' | transform_to_packet \<Rightarrow> ''tpkt''
        | reduce_send_packet \<Rightarrow> ''rspkt'' | reduce_packet \<Rightarrow> ''rpkt'' | put \<Rightarrow> ''put''
        | put_packet \<Rightarrow> ''ppkt'' | put_with_signal \<Rightarrow> ''pws''
        | put_with_signal_and_flush \<Rightarrow> ''pwsf'' | get \<Rightarrow> ''get'' | wait \<Rightarrow> ''wait''
        | signal \<Rightarrow> ''signal'' | flush \<Rightarrow> ''flush'' | barrier \<Rightarrow> ''barrier''
        | group_store \<Rightarrow> ''gstore'' | group_load_reduce \<Rightarrow> ''glre''
        | group_load_reduce_store \<Rightarrow> ''glres''),
      op_cnt = (\<lambda>op. Inr (case src op of Some s \<Rightarrow> size_c s
                           | None \<Rightarrow> (case dst op of Some d \<Rightarrow> size_c d | None \<Rightarrow> 0)))\<rparr>"

text \<open>One device without threadblocks.\<close>

definition exL :: Program where
  "exL = mk_program ''Simple'' [mk_gpu 0 [] 0 0 0]"

text \<open>
  One device whose threadblock 0 declares a point-to-point channel from input to
  scratch connected to rank 1 and issues a put over such a channel to a chunk of rank 2.
\<close>

definition exQ_store :: store where
  "exQ_store =
     (\<lambda>a. new_nop)
       (1 := new_nop\<lparr>inst := put, op_rank := 0, src := Some (chunk 0 input_buf 0 1),
                     dst := Some (chunk 2 scratch_buf 0 1), channel_type := sm,
                     dsts := [chunk 2 scratch_buf 0 1]\<rparr>)"

definition exQ :: Program where
  "exQ = mk_program ''Simple'' [mk_gpu 0 [mk_tb 0 [1] [sm_chan input_buf scratch_buf 1]] 0 0 0]"

text \<open>
  One device with a threadblock of id -1, which copies to scratch[4..5) and declares a
  channel to rank 1, and threadblock 0, which declares a channel of the same key to
  rank 2 and puts over it; and the same device without the threadblock of id -1.
\<close>

definition exN_store :: store where
  "exN_store =
     (\<lambda>a. new_nop)
       (5 := new_nop\<lparr>inst := copy, op_rank := 0, src := Some (chunk 0 input_buf 0 1),
                     dst := Some (chunk 0 scratch_buf 4 1)\<rparr>,
        6 := new_nop\<lparr>inst := put, op_rank := 0, src := Some (chunk 0 input_buf 0 1),
                     dst := Some (chunk 2 scratch_buf 0 1), channel_type := sm,
                     dsts := [chunk 2 scratch_buf 0 1]\<rparr>)"

definition exN :: Program where
  "exN = mk_program ''Simple''
     [mk_gpu 0 [mk_tb 0 [6] [sm_chan input_buf scratch_buf 2],
                mk_tb (- 1) [5] [sm_chan input_buf scratch_buf 1]] 0 0 0]"

definition exN_without :: Program where
  "exN_without = mk_program ''Simple''
     [mk_gpu 0 [mk_tb 0 [6] [sm_chan input_buf scratch_buf 2]] 0 0 0]"

text \<open>The device with the three multicast channels, as a program.\<close>

definition exM :: Program where
  "exM = mk_program ''Simple'' [exM_gpu]"

section \<open>Buffer size inference: results\<close>

lemma scan_op_eq:
  "scan_op lsrc ldst r op bs =
     (if operands_present lsrc ldst op then Inr (fold (bump r) (local_refs lsrc ldst op) bs)
      else Inl AttributeError)"
  by (auto simp: scan_op_def scan_src_def scan_dst_def operands_present_def local_refs_def
           split: option.splits sum.splits)

lemma foldE_fold:
  assumes "\<And>x s. x \<in> set xs \<Longrightarrow> f x s = (if ok x then Inr (fold g (w x) s) else Inl e)"
  shows "foldE f xs s = (if list_all ok xs then Inr (fold g (concat (map w xs)) s) else Inl e)"
  using assms by (induction xs arbitrary: s) auto

lemma scan_tb_eq:
  "scan_tb lsrc ldst h r t bs =
     (if tb_ok lsrc ldst h t then Inr (fold (bump r) (tb_refs lsrc ldst h t) bs)
      else Inl AttributeError)"
  unfolding scan_tb_def tb_ok_def tb_refs_def
  by (rule foldE_fold) (simp add: scan_op_eq)

lemma scan_gpu_eq:
  "scan_gpu lsrc ldst h g bs =
     (if gpu_ok lsrc ldst h g then Inr (fold (bump (gpu_rank g)) (gpu_refs lsrc ldst h g) bs)
      else Inl AttributeError)"
  unfolding scan_gpu_def gpu_ok_def gpu_refs_def
  by (rule foldE_fold) (simp add: scan_tb_eq)

lemma fold_bump2: "fold (bump r) cs bs = fold bump2 (map (Pair r) cs) bs"
  by (induction cs arbitrary: bs) (auto simp: bump2_def)

lemma scan_program_eq:
  "scan_program lsrc ldst h p =
     (if list_all (gpu_ok lsrc ldst h) (gpus p)
      then Inr (fold bump2 (concat (map (ranked_refs lsrc ldst h) (gpus p))) (\<lambda>key. 0))
      else Inl AttributeError)"
  unfolding scan_program_def
  by (rule foldE_fold) (simp add: scan_gpu_eq fold_bump2 ranked_refs_def)

lemma fold_bump2_fold_max:
  "fold bump2 rcs bs (r, b) =
     fold max (map (\<lambda>rc. index (snd rc) + size_c (snd rc))
                 (filter (\<lambda>rc. fst rc = r \<and> buffer (snd rc) = b) rcs)) (bs (r, b))"
  by (induction rcs arbitrary: bs) (auto simp: bump2_def bump_def max.commute)

lemma fold_bump2_val:
  "fold bump2 rcs bs (r, b) =
     Max (set (bs (r, b) # map (\<lambda>rc. index (snd rc) + size_c (snd rc))
                 (filter (\<lambda>rc. fst rc = r \<and> buffer (snd rc) = b) rcs)))"
  by (simp only: fold_bump2_fold_max Max.set_eq_fold)

lemma ranked_filter:
  "map (\<lambda>rc. index (snd rc) + size_c (snd rc))
        (filter (\<lambda>rc. fst rc = r \<and> buffer (snd rc) = b)
           (concat (map (ranked_refs lsrc ldst h) gs))) =
   map (\<lambda>c. index c + size_c c)
        (filter (\<lambda>c. buffer c = b)
           (concat (map (gpu_refs lsrc ldst h) (filter (\<lambda>g. gpu_rank g = r) gs))))"
proof (induction gs)
  case Nil
  then show ?case by simp
next
  case (Cons g gs)
  have "filter (\<lambda>rc. fst rc = r \<and> buffer (snd rc) = b) (map (Pair (gpu_rank g)) cs) =
        (if gpu_rank g = r then map (Pair (gpu_rank g)) (filter (\<lambda>c. buffer c = b) cs) else [])"
    for cs :: "ChunkRef list"
    by (induction cs) auto
  then show ?case using Cons.IH
    by (simp add: ranked_refs_def comp_def)
qed

lemma scanned_size:
  "fold bump2 (concat (map (ranked_refs lsrc ldst h) (gpus p))) (\<lambda>key. 0) (r, b) =
     largest_end b (rank_refs lsrc ldst h p r)"
  by (simp only: fold_bump2_val ranked_filter largest_end_def rank_refs_def)

lemma apply_sizes_with:
  "apply_sizes (fold bump2 (concat (map (ranked_refs lsrc ldst h) (gpus p))) (\<lambda>key. 0)) g =
   with_sizes (\<lambda>b. largest_end b (rank_refs lsrc ldst h p (gpu_rank g))) g"
  by (simp only: apply_sizes_def with_sizes_def scanned_size)

lemma infer_buffer_sizes_eq:
  "infer_buffer_sizes lsrc ldst h p =
     (if list_all (gpu_ok lsrc ldst h) (gpus p)
      then Inr (p\<lparr>gpus := map (\<lambda>g. with_sizes (\<lambda>b. largest_end b (rank_refs lsrc ldst h p (gpu_rank g))) g)
                             (gpus p)\<rparr>)
      else Inl AttributeError)"
  by (simp add: infer_buffer_sizes_def scan_program_eq apply_sizes_with)

lemma filter_rank_single:
  "distinct (map gpu_rank gs) \<Longrightarrow> g \<in> set gs \<Longrightarrow> filter (\<lambda>g'. gpu_rank g' = gpu_rank g) gs = [g]"
proof (induction gs)
  case Nil
  then show ?case by simp
next
  case (Cons a gs)
  show ?case
  proof (cases "a = g")
    case True
    with Cons.prems have "gpu_rank g \<notin> gpu_rank ` set gs" by simp
    then have "\<forall>g'\<in>set gs. gpu_rank g' \<noteq> gpu_rank g" by (metis imageI)
    then have "filter (\<lambda>g'. gpu_rank g' = gpu_rank g) gs = []" by (simp add: filter_empty_conv)
    with True show ?thesis by simp
  next
    case False
    with Cons.prems have "g \<in> set gs" by simp
    moreover from Cons.prems have "gpu_rank a \<notin> gpu_rank ` set gs" by simp
    ultimately have "g \<in> set gs" "gpu_rank a \<noteq> gpu_rank g" by (metis imageI)+
    with Cons show ?thesis by simp
  qed
qed

lemma rank_refs_own:
  "distinct (map gpu_rank (gpus p)) \<Longrightarrow> g \<in> set (gpus p) \<Longrightarrow>
   rank_refs lsrc ldst h p (gpu_rank g) = gpu_refs lsrc ldst h g"
  by (simp add: rank_refs_def filter_rank_single)

lemma exA_ok:
  "list_all (gpu_ok local_src_insts_mscclpp local_dst_insts_mscclpp exA_store) (gpus exA)"
  by (simp add: exA_def exA_store_def mk_program_def mk_gpu_def mk_tb_def gpu_ok_def tb_ok_def
        operands_present_def new_nop_def)

lemma exA_refs:
  "rank_refs local_src_insts_mscclpp local_dst_insts_mscclpp exA_store exA 0 =
     [chunk 0 input_buf 0 2, chunk 0 scratch_buf 1 2]"
  "rank_refs local_src_insts_mscclpp local_dst_insts_mscclpp exA_store exA 1 =
     [chunk 1 input_buf 0 1]"
  by (simp_all add: exA_def exA_store_def mk_program_def mk_gpu_def mk_tb_def rank_refs_def
        gpu_refs_def tb_refs_def local_refs_def new_nop_def local_src_insts_mscclpp_def
        local_dst_insts_mscclpp_def)

lemma largest_end_fold:
  "largest_end b cs = fold max (map (\<lambda>c. index c + size_c c) (filter (\<lambda>c. buffer c = b) cs)) 0"
  by (simp only: largest_end_def Max.set_eq_fold)

lemma exA_gpus: "gpus exA = [mk_gpu 0 [mk_tb 0 [0] []] 0 0 0, mk_gpu 1 [mk_tb 0 [1] []] 0 1 1]"
  by (simp add: exA_def mk_program_def)

lemma exA_need:
  "largest_end b (rank_refs local_src_insts_mscclpp local_dst_insts_mscclpp exA_store exA 0) =
     (case b of input_buf \<Rightarrow> 2 | output_buf \<Rightarrow> 0 | scratch_buf \<Rightarrow> 3)"
  "largest_end b (rank_refs local_src_insts_mscclpp local_dst_insts_mscclpp exA_store exA 1) =
     (case b of input_buf \<Rightarrow> 1 | output_buf \<Rightarrow> 0 | scratch_buf \<Rightarrow> 0)"
  by (cases b; simp add: exA_refs largest_end_fold chunk_def)+

lemma exA_sized:
  "exA\<lparr>gpus := map (\<lambda>g. with_sizes (\<lambda>b. largest_end b
                 (rank_refs local_src_insts_mscclpp local_dst_insts_mscclpp exA_store exA
                    (gpu_rank g))) g) (gpus exA)\<rparr> =
     mk_program ''LL'' [mk_gpu 0 [mk_tb 0 [0] []] 2 0 3, mk_gpu 1 [mk_tb 0 [1] []] 1 1 1]"
proof -
  have r: "gpu_rank (mk_gpu r ts i out s) = r" for r ts i out s
    by (simp add: mk_gpu_def)
  have "map (\<lambda>g. with_sizes (\<lambda>b. largest_end b
                 (rank_refs local_src_insts_mscclpp local_dst_insts_mscclpp exA_store exA
                    (gpu_rank g))) g) (gpus exA) =
        [mk_gpu 0 [mk_tb 0 [0] []] 2 0 3, mk_gpu 1 [mk_tb 0 [1] []] 1 1 1]"
    unfolding exA_gpus list.map r exA_need
    by (simp add: with_sizes_def mk_gpu_def)
  then show ?thesis
    by (simp add: exA_def mk_program_def)
qed

section \<open>Scratch capacity under the LL protocol\<close>

lemma with_sizes_scratch:
  "scratch_chunks (with_sizes need g) = max (need scratch_buf) (scratch_chunks g)"
  by (simp add: with_sizes_def)

lemma buffer_stage_ll:
  assumes "protocol p = ''LL''" and "gpus p \<noteq> []"
    and "list_all (gpu_ok local_src_insts_mscclpp local_dst_insts_mscclpp h) (gpus p)"
  shows "buffer_stage h p =
     Inr (p\<lparr>gpus := map (\<lambda>g. (with_sizes (\<lambda>b. largest_end b
                 (rank_refs local_src_insts_mscclpp local_dst_insts_mscclpp h p (gpu_rank g))) g)
                 \<lparr>scratch_chunks := ll_scratch h p\<rparr>) (gpus p)\<rparr>)"
  using assms
  by (simp add: buffer_stage_def infer_buffer_sizes_eq unify_ll_scratch_def ll_scratch_def
        with_sizes_scratch comp_def)

lemma buffer_stage_ll_empty:
  "protocol p = ''LL'' \<Longrightarrow> gpus p = [] \<Longrightarrow> buffer_stage h p = Inl ValueError"
  by (simp add: buffer_stage_def infer_buffer_sizes_eq unify_ll_scratch_def)

text \<open>
  Claim C3, for \<^verbatim>\<open>ir.py\<close>. Under the LL protocol, with at least one device and no op
  that makes the scan raise, the buffer stage returns, keeps the device list's length,
  and every device reports as scratch capacity the maximum over all devices of the
  larger of declared and required scratch capacity.
\<close>

theorem ll_scratch_uniform:
  assumes "protocol p = ''LL''" and "gpus p \<noteq> []"
    and "list_all (gpu_ok local_src_insts_mscclpp local_dst_insts_mscclpp h) (gpus p)"
  shows "\<exists>p'. buffer_stage h p = Inr p' \<and> length (gpus p') = length (gpus p) \<and>
              (\<forall>g\<in>set (gpus p'). scratch_chunks g = ll_scratch h p)"
  by (auto simp: buffer_stage_ll [OF assms])

lemma exA_ll_scratch: "ll_scratch exA_store exA = 3"
  unfolding ll_scratch_def exA_gpus list.map
  by (simp add: mk_gpu_def exA_need)

theorem ll_scratch_uniform_witness:
  "protocol exA = ''LL'' \<and> gpus exA \<noteq> []
   \<and> list_all (gpu_ok local_src_insts_mscclpp local_dst_insts_mscclpp exA_store) (gpus exA)
   \<and> scratch_report (buffer_stage exA_store exA) = Inr [3, 3]"
proof -
  have a: "protocol exA = ''LL''" by (simp add: exA_def mk_program_def)
  have b: "gpus exA \<noteq> []" by (simp add: exA_gpus)
  from ll_scratch_uniform [OF a b exA_ok]
  obtain p' where p': "buffer_stage exA_store exA = Inr p'" "length (gpus p') = length (gpus exA)"
    "\<forall>g\<in>set (gpus p'). scratch_chunks g = ll_scratch exA_store exA"
    by blast
  from p'(2) have "length (gpus p') = 2" by (simp add: exA_gpus)
  then obtain g0 g1 where gs: "gpus p' = [g0, g1]"
    by (cases "gpus p'"; simp) (metis length_0_conv length_Suc_conv)
  with p'(3) have "map scratch_chunks (gpus p') = [3, 3]"
    by (simp add: exA_ll_scratch)
  with p'(1) a b exA_ok show ?thesis by (simp add: scratch_report_def)
qed

text \<open>
  The older module has no reconciliation step: on the same LL program its devices end
  the buffer stage with scratch capacities 3 and 1.
\<close>

lemma exA_legacy_ok:
  "list_all (gpu_ok legacy_local_src_insts legacy_local_dst_insts exA_store) (gpus exA)"
  by (simp add: exA_gpus exA_store_def mk_gpu_def mk_tb_def gpu_ok_def tb_ok_def
        operands_present_def new_nop_def)

lemma exA_legacy_refs:
  "rank_refs legacy_local_src_insts legacy_local_dst_insts exA_store exA 0 =
     [chunk 0 input_buf 0 2, chunk 0 scratch_buf 1 2]"
  "rank_refs legacy_local_src_insts legacy_local_dst_insts exA_store exA 1 =
     [chunk 1 input_buf 0 1]"
  by (simp_all add: exA_gpus exA_store_def mk_gpu_def mk_tb_def rank_refs_def
        gpu_refs_def tb_refs_def local_refs_def new_nop_def legacy_local_src_insts_def
        legacy_local_dst_insts_def)

theorem legacy_ll_scratch_counterexample:
  "protocol exA = ''LL'' \<and> scratch_report (legacy_buffer_stage exA_store exA) = Inr [3, 1]"
proof -
  have r: "gpu_rank (mk_gpu r ts i out s) = r" for r ts i out s
    by (simp add: mk_gpu_def)
  have "map (\<lambda>g. scratch_chunks (with_sizes (\<lambda>b. largest_end b
                 (rank_refs legacy_local_src_insts legacy_local_dst_insts exA_store exA
                    (gpu_rank g))) g)) (gpus exA) = [3, 1]"
    unfolding exA_gpus list.map r exA_legacy_refs
    by (simp add: with_sizes_def mk_gpu_def largest_end_fold chunk_def)
  then show ?thesis
    by (simp add: legacy_buffer_stage_def infer_buffer_sizes_eq exA_legacy_ok
          scratch_report_def comp_def) (simp add: exA_def mk_program_def)
qed

section \<open>Buffer capacities after the whole stage\<close>

lemma buffer_stage_eq:
  "buffer_stage h p =
     (if \<not> list_all (gpu_ok local_src_insts_mscclpp local_dst_insts_mscclpp h) (gpus p)
      then Inl AttributeError
      else if protocol p \<noteq> ''LL''
      then Inr (p\<lparr>gpus := map (\<lambda>g. with_sizes (\<lambda>b. largest_end b
                 (rank_refs local_src_insts_mscclpp local_dst_insts_mscclpp h p (gpu_rank g))) g)
                 (gpus p)\<rparr>)
      else if gpus p = [] then Inl ValueError
      else Inr (p\<lparr>gpus := map (\<lambda>g. (with_sizes (\<lambda>b. largest_end b
                 (rank_refs local_src_insts_mscclpp local_dst_insts_mscclpp h p (gpu_rank g))) g)
                 \<lparr>scratch_chunks := ll_scratch h p\<rparr>) (gpus p)\<rparr>))"
  by (simp add: buffer_stage_def infer_buffer_sizes_eq unify_ll_scratch_def ll_scratch_def
        with_sizes_scratch comp_def)

text \<open>
  Claim C4. The buffer stage of both modules. The scan of lines 51 to 77 (the same code
  in both modules, with the module's own two instruction sets) either raises, when an
  op of a local-read kind has no primary source or an op of a local-write kind has no
  primary destination, or leaves every device with, per buffer kind, the larger of its
  declared capacity and the largest index + length over the chunk references the scan
  reads (0 when it reads none): primary source and source list of local-read ops,
  primary destination and, unless the kind is one of the three remote-destination
  kinds, destination list of local-write ops. The running maxima are keyed by device
  rank; when ranks are distinct the references are those of the device's own ops.
  That is the whole stage in \<^verbatim>\<open>ir_mscclpp.py\<close>, and in \<^verbatim>\<open>ir.py\<close> unless the protocol is
  LL. Under LL lines 81 to 84 of \<^verbatim>\<open>ir.py\<close> then raise when there is no device and
  otherwise replace every device's scratch capacity by the maximum over all devices;
  input and output capacities stay.
\<close>

theorem buffer_capacity_inferred:
  "infer_buffer_sizes lsrc ldst h p =
     (if list_all (gpu_ok lsrc ldst h) (gpus p)
      then Inr (p\<lparr>gpus := map (\<lambda>g. with_sizes (\<lambda>b. largest_end b (rank_refs lsrc ldst h p (gpu_rank g))) g)
                             (gpus p)\<rparr>)
      else Inl AttributeError)
   \<and> legacy_buffer_stage h p = infer_buffer_sizes legacy_local_src_insts legacy_local_dst_insts h p
   \<and> buffer_stage h p =
       (if \<not> list_all (gpu_ok local_src_insts_mscclpp local_dst_insts_mscclpp h) (gpus p)
        then Inl AttributeError
        else if protocol p \<noteq> ''LL''
        then infer_buffer_sizes local_src_insts_mscclpp local_dst_insts_mscclpp h p
        else if gpus p = [] then Inl ValueError
        else Inr (p\<lparr>gpus := map (\<lambda>g. (with_sizes (\<lambda>b. largest_end b
                   (rank_refs local_src_insts_mscclpp local_dst_insts_mscclpp h p (gpu_rank g))) g)
                   \<lparr>scratch_chunks := ll_scratch h p\<rparr>) (gpus p)\<rparr>))
   \<and> (distinct (map gpu_rank (gpus p)) \<longrightarrow>
        (\<forall>g\<in>set (gpus p). rank_refs lsrc ldst h p (gpu_rank g) = gpu_refs lsrc ldst h g))"
proof -
  have "buffer_stage h p =
       (if \<not> list_all (gpu_ok local_src_insts_mscclpp local_dst_insts_mscclpp h) (gpus p)
        then Inl AttributeError
        else if protocol p \<noteq> ''LL''
        then infer_buffer_sizes local_src_insts_mscclpp local_dst_insts_mscclpp h p
        else if gpus p = [] then Inl ValueError
        else Inr (p\<lparr>gpus := map (\<lambda>g. (with_sizes (\<lambda>b. largest_end b
                   (rank_refs local_src_insts_mscclpp local_dst_insts_mscclpp h p (gpu_rank g))) g)
                   \<lparr>scratch_chunks := ll_scratch h p\<rparr>) (gpus p)\<rparr>))"
    by (simp add: buffer_stage_eq infer_buffer_sizes_eq)
  moreover have "legacy_buffer_stage h p =
      infer_buffer_sizes legacy_local_src_insts legacy_local_dst_insts h p"
    by (simp add: legacy_buffer_stage_def)
  ultimately show ?thesis using infer_buffer_sizes_eq [of lsrc ldst h p] rank_refs_own [of p _ lsrc ldst h]
    by blast
qed

lemma exA_ll_sized:
  "exA\<lparr>gpus := map (\<lambda>g. (with_sizes (\<lambda>b. largest_end b
                 (rank_refs local_src_insts_mscclpp local_dst_insts_mscclpp exA_store exA
                    (gpu_rank g))) g)\<lparr>scratch_chunks := ll_scratch exA_store exA\<rparr>) (gpus exA)\<rparr> =
     mk_program ''LL'' [mk_gpu 0 [mk_tb 0 [0] []] 2 0 3, mk_gpu 1 [mk_tb 0 [1] []] 1 1 3]"
proof -
  have r: "gpu_rank (mk_gpu r ts i out s) = r" for r ts i out s
    by (simp add: mk_gpu_def)
  have "map (\<lambda>g. (with_sizes (\<lambda>b. largest_end b
                 (rank_refs local_src_insts_mscclpp local_dst_insts_mscclpp exA_store exA
                    (gpu_rank g))) g)\<lparr>scratch_chunks := ll_scratch exA_store exA\<rparr>) (gpus exA) =
        [mk_gpu 0 [mk_tb 0 [0] []] 2 0 3, mk_gpu 1 [mk_tb 0 [1] []] 1 1 3]"
    unfolding exA_gpus list.map r exA_need exA_ll_scratch
    by (simp add: with_sizes_def mk_gpu_def)
  then show ?thesis
    by (simp add: exA_def mk_program_def)
qed

theorem buffer_capacity_inferred_witness:
  "list_all (gpu_ok local_src_insts_mscclpp local_dst_insts_mscclpp exA_store) (gpus exA)
   \<and> distinct (map gpu_rank (gpus exA))
   \<and> infer_buffer_sizes local_src_insts_mscclpp local_dst_insts_mscclpp exA_store exA =
       Inr (mk_program ''LL''
              [mk_gpu 0 [mk_tb 0 [0] []] 2 0 3, mk_gpu 1 [mk_tb 0 [1] []] 1 1 1])
   \<and> buffer_stage exA_store exA =
       Inr (mk_program ''LL''
              [mk_gpu 0 [mk_tb 0 [0] []] 2 0 3, mk_gpu 1 [mk_tb 0 [1] []] 1 1 3])
   \<and> gpu_refs local_src_insts_mscclpp local_dst_insts_mscclpp exA_store (gpus exA ! 0) =
       [chunk 0 input_buf 0 2, chunk 0 scratch_buf 1 2]"
proof -
  note c4 = buffer_capacity_inferred
    [of local_src_insts_mscclpp local_dst_insts_mscclpp exA_store exA]
  have d: "distinct (map gpu_rank (gpus exA))"
    by (simp add: exA_gpus mk_gpu_def)
  have m: "gpus exA ! 0 \<in> set (gpus exA)"
    by (simp add: exA_gpus)
  have r0: "gpu_rank (gpus exA ! 0) = 0"
    by (simp add: exA_gpus mk_gpu_def)
  have ll: "protocol exA = ''LL''" "gpus exA \<noteq> []" by (simp_all add: exA_def mk_program_def)
  from c4 d m have "rank_refs local_src_insts_mscclpp local_dst_insts_mscclpp exA_store exA
        (gpu_rank (gpus exA ! 0)) =
      gpu_refs local_src_insts_mscclpp local_dst_insts_mscclpp exA_store (gpus exA ! 0)"
    by blast
  then have own: "gpu_refs local_src_insts_mscclpp local_dst_insts_mscclpp exA_store (gpus exA ! 0) =
       [chunk 0 input_buf 0 2, chunk 0 scratch_buf 1 2]"
    by (simp only: r0 exA_refs)
  from c4 exA_ok have
    "infer_buffer_sizes local_src_insts_mscclpp local_dst_insts_mscclpp exA_store exA =
       Inr (exA\<lparr>gpus := map (\<lambda>g. with_sizes (\<lambda>b. largest_end b
                 (rank_refs local_src_insts_mscclpp local_dst_insts_mscclpp exA_store exA
                    (gpu_rank g))) g) (gpus exA)\<rparr>)"
    by simp
  then have i: "infer_buffer_sizes local_src_insts_mscclpp local_dst_insts_mscclpp exA_store exA =
       Inr (mk_program ''LL''
              [mk_gpu 0 [mk_tb 0 [0] []] 2 0 3, mk_gpu 1 [mk_tb 0 [1] []] 1 1 1])"
    by (simp only: exA_sized)
  from c4 exA_ok ll have
    "buffer_stage exA_store exA =
       Inr (exA\<lparr>gpus := map (\<lambda>g. (with_sizes (\<lambda>b. largest_end b
                 (rank_refs local_src_insts_mscclpp local_dst_insts_mscclpp exA_store exA
                    (gpu_rank g))) g)\<lparr>scratch_chunks := ll_scratch exA_store exA\<rparr>) (gpus exA)\<rparr>)"
    by simp
  then have b: "buffer_stage exA_store exA =
       Inr (mk_program ''LL''
              [mk_gpu 0 [mk_tb 0 [0] []] 2 0 3, mk_gpu 1 [mk_tb 0 [1] []] 1 1 3])"
    by (simp only: exA_ll_sized)
  from exA_ok d i b own show ?thesis by simp
qed

text \<open>
  Device 1 of the LL example declares one scratch chunk and its ops use none, yet it
  ends the stage of \<^verbatim>\<open>ir.py\<close> with three.
\<close>

theorem ll_overrides_device_capacity:
  "protocol exA = ''LL''
   \<and> scratch_chunks (gpus exA ! 1) = 1
   \<and> largest_end scratch_buf
       (gpu_refs local_src_insts_mscclpp local_dst_insts_mscclpp exA_store (gpus exA ! 1)) = 0
   \<and> map_sum id (\<lambda>p. scratch_chunks (gpus p ! 1)) (buffer_stage exA_store exA) = Inr 3"
proof -
  have a: "protocol exA = ''LL''" "scratch_chunks (gpus exA ! 1) = 1"
    by (simp_all add: exA_def mk_program_def mk_gpu_def)
  have "gpu_refs local_src_insts_mscclpp local_dst_insts_mscclpp exA_store (gpus exA ! 1) =
      [chunk 1 input_buf 0 1]"
    by (simp add: exA_gpus exA_store_def mk_gpu_def mk_tb_def
        gpu_refs_def tb_refs_def local_refs_def new_nop_def local_src_insts_mscclpp_def
        local_dst_insts_mscclpp_def)
  then have b: "largest_end scratch_buf
       (gpu_refs local_src_insts_mscclpp local_dst_insts_mscclpp exA_store (gpus exA ! 1)) = 0"
    by (simp add: largest_end_fold chunk_def)
  have "buffer_stage exA_store exA =
       Inr (mk_program ''LL''
              [mk_gpu 0 [mk_tb 0 [0] []] 2 0 3, mk_gpu 1 [mk_tb 0 [1] []] 1 1 3])"
    using exA_ok by (simp add: buffer_stage_eq exA_ll_sized) (simp add: exA_def mk_program_def)
  then have c: "map_sum id (\<lambda>p. scratch_chunks (gpus p ! 1)) (buffer_stage exA_store exA) = Inr 3"
    by (simp add: mk_program_def mk_gpu_def)
  from a b c show ?thesis by simp
qed

section \<open>Channel allocator: results\<close>

lemma collect_channels_fold: "collect_channels ts = fold add_decl (decl_list ts) []"
proof -
  have inner: "fold (\<lambda>ch. dict_append (chan_key_of ch) (i, connected_to ch)) cs d =
        fold add_decl (map (Pair i) cs) d" for i cs d
    by (induction cs arbitrary: d) (simp_all add: add_decl_def)
  have "fold (\<lambda>t d. fold (\<lambda>ch. dict_append (chan_key_of ch) (tb_id t, connected_to ch))
                    (channels t) d) ts d = fold add_decl (decl_list ts) d" for d
    by (induction ts arbitrary: d) (simp_all add: decl_list_def inner)
  then show ?thesis by (simp add: collect_channels_def)
qed

lemma map_of_dict_append:
  "map_of (dict_append k e d) =
     (map_of d)(k \<mapsto> (case map_of d k of None \<Rightarrow> [e] | Some es \<Rightarrow> es @ [e]))"
  by (induction d) (auto simp: fun_eq_iff)

lemma keys_dict_append: "fst ` set (dict_append k e d) = insert k (fst ` set d)"
proof (induction d)
  case Nil
  then show ?case by simp
next
  case (Cons a d)
  have "dict_append k e (a # d) =
      (if fst a = k then (fst a, snd a @ [e]) # d else a # dict_append k e d)"
    by (cases a) simp
  then show ?case using Cons.IH by (simp add: insert_commute)
qed

lemma distinct_dict_append: "distinct (map fst d) \<Longrightarrow> distinct (map fst (dict_append k e d))"
proof (induction d)
  case Nil
  then show ?case by simp
next
  case (Cons a d)
  show ?case
  proof (cases "fst a = k")
    case True
    with Cons.prems show ?thesis by (cases a) simp
  next
    case False
    with Cons show ?thesis by (cases a) (simp add: keys_dict_append)
  qed
qed

lemma distinct_fold_add: "distinct (map fst d) \<Longrightarrow> distinct (map fst (fold add_decl ds d))"
  by (induction ds arbitrary: d) (simp_all add: add_decl_def distinct_dict_append)

lemma map_of_fold_add:
  "map_of (fold add_decl ds d) k =
     (case map_of d k of
        None \<Rightarrow> (if entries_for k ds = [] then None else Some (entries_for k ds))
      | Some es \<Rightarrow> Some (es @ entries_for k ds))"
proof (induction ds arbitrary: d)
  case Nil
  then show ?case by (simp add: entries_for_def split: option.splits)
next
  case (Cons a ds)
  have e: "entries_for k (a # ds) =
      (if chan_key_of (snd a) = k then [(fst a, connected_to (snd a))] else []) @ entries_for k ds"
    by (simp add: entries_for_def)
  have m: "map_of (add_decl a d) k =
      (if chan_key_of (snd a) = k
       then Some (case map_of d k of None \<Rightarrow> [(fst a, connected_to (snd a))]
                  | Some es \<Rightarrow> es @ [(fst a, connected_to (snd a))])
       else map_of d k)"
    by (simp add: add_decl_def map_of_dict_append)
  have "map_of (fold add_decl (a # ds) d) k = map_of (fold add_decl ds (add_decl a d)) k"
    by simp
  also have "\<dots> = (case map_of (add_decl a d) k of
        None \<Rightarrow> (if entries_for k ds = [] then None else Some (entries_for k ds))
      | Some es \<Rightarrow> Some (es @ entries_for k ds))"
    by (rule Cons.IH)
  also have "\<dots> = (case map_of d k of
        None \<Rightarrow> (if entries_for k (a # ds) = [] then None else Some (entries_for k (a # ds)))
      | Some es \<Rightarrow> Some (es @ entries_for k (a # ds)))"
    unfolding m e by (simp split: option.splits)
  finally show ?case .
qed

lemma map_of_collect:
  "map_of (collect_channels ts) k =
     (if entries_for k (decl_list ts) = [] then None else Some (entries_for k (decl_list ts)))"
  by (simp add: collect_channels_fold map_of_fold_add)

lemma distinct_collect: "distinct (map fst (collect_channels ts))"
  by (simp add: collect_channels_fold distinct_fold_add)

lemma sort_dict_eq:
  "sort_dict d =
     (if list_ex (\<lambda>kv. mixed_targets (snd kv)) d then Inl TypeError
      else Inr (map (\<lambda>kv. (fst kv, sort_key entry_key (snd kv))) d))"
proof (induction d)
  case Nil
  then show ?case by (simp add: sort_dict_def)
next
  case (Cons kv d)
  have "sort_dict (kv # d) =
      (if mixed_targets (snd kv) then Inl TypeError
       else case sort_dict d of Inl e \<Rightarrow> Inl e
            | Inr d' \<Rightarrow> Inr ((fst kv, sort_key entry_key (snd kv)) # d'))"
    by (cases kv) (simp add: sort_dict_def sorted_entries_def split: sum.splits)
  then show ?case by (simp add: Cons.IH)
qed

lemma inj_entry_key: "inj entry_key"
proof (rule injI)
  fix a b :: chan_entry
  assume "entry_key a = entry_key b"
  then show "a = b"
    by (cases a; cases b; cases "snd a"; cases "snd b") auto
qed

lemma map_sort_key: "map f (sort_key f xs) = sort (map f xs)"
  by (rule properties_for_sort [symmetric]) simp_all

lemma sort_key_entry_mset:
  assumes "mset xs = mset ys"
  shows "sort_key entry_key xs = sort_key entry_key ys"
proof -
  from assms have "mset (map entry_key xs) = mset (map entry_key ys)" by simp
  then have "sort (map entry_key xs) = sort (map entry_key ys)"
    by (metis properties_for_sort sorted_sort mset_sort)
  then have "map entry_key (sort_key entry_key xs) = map entry_key (sort_key entry_key ys)"
    by (simp only: map_sort_key)
  then show ?thesis using inj_entry_key by (simp add: inj_map_eq_map)
qed

lemma mixed_targets_set: "set xs = set ys \<Longrightarrow> mixed_targets xs = mixed_targets ys"
  by (simp add: mixed_targets_def list_ex_iff)

lemma mset_decl_list_sort: "mset (decl_list (sort_key tb_id ts)) = mset (decl_list ts)"
proof -
  have "mset (decl_list xs) = (\<Sum>t\<in>#mset xs. mset (map (Pair (tb_id t)) (channels t)))" for xs
    by (induction xs) (simp_all add: decl_list_def)
  then show ?thesis by simp
qed

lemma mset_entries_for:
  "mset ds = mset ds' \<Longrightarrow> mset (entries_for k ds) = mset (entries_for k ds')"
  by (simp add: entries_for_def)

lemma list_ex_collect:
  "list_ex (\<lambda>kv. mixed_targets (snd kv)) (collect_channels ts) = any_mixed (decl_list ts)"
proof
  assume "list_ex (\<lambda>kv. mixed_targets (snd kv)) (collect_channels ts)"
  then obtain k es where kv: "(k, es) \<in> set (collect_channels ts)" "mixed_targets es"
    by (auto simp: list_ex_iff)
  then have "map_of (collect_channels ts) k = Some es"
    using distinct_collect by simp
  then have "es = entries_for k (decl_list ts)"
    by (simp add: map_of_collect split: if_splits)
  with kv show "any_mixed (decl_list ts)" unfolding any_mixed_def by blast
next
  assume "any_mixed (decl_list ts)"
  then obtain k where k: "mixed_targets (entries_for k (decl_list ts))"
    unfolding any_mixed_def by blast
  then have "entries_for k (decl_list ts) \<noteq> []" by (auto simp: mixed_targets_def)
  then have "map_of (collect_channels ts) k = Some (entries_for k (decl_list ts))"
    by (simp add: map_of_collect)
  then have "(k, entries_for k (decl_list ts)) \<in> set (collect_channels ts)"
    by (rule map_of_SomeD)
  with k show "list_ex (\<lambda>kv. mixed_targets (snd kv)) (collect_channels ts)"
    by (force simp: list_ex_iff)
qed

lemma any_mixed_mset: "mset ds = mset ds' \<Longrightarrow> any_mixed ds = any_mixed ds'"
proof -
  assume a: "mset ds = mset ds'"
  have "set (entries_for k ds) = set (entries_for k ds')" for k
    using mset_entries_for [OF a, of k] by (metis set_mset_mset)
  then have "mixed_targets (entries_for k ds) = mixed_targets (entries_for k ds')" for k
    by (rule mixed_targets_set)
  then show ?thesis
    unfolding any_mixed_def by simp
qed

lemma map_of_sorted_dict:
  "map_of (map (\<lambda>kv. (fst kv, sort_key entry_key (snd kv))) d) k =
     map_option (sort_key entry_key) (map_of d k)"
  by (induction d) auto

lemma alloc_channels_eq:
  "alloc_channels g =
     (if any_mixed (declared g) then Inl TypeError
      else Inr (g\<lparr>threadblocks := sort_key tb_id (threadblocks g),
                  gpu_channels := map (\<lambda>kv. (fst kv, sort_key entry_key (snd kv)))
                                    (collect_channels (sort_key tb_id (threadblocks g)))\<rparr>))"
proof -
  have "any_mixed (decl_list (sort_key tb_id (threadblocks g))) = any_mixed (declared g)"
    unfolding declared_def by (rule any_mixed_mset) (rule mset_decl_list_sort)
  then show ?thesis
    by (simp add: alloc_channels_def Let_def sort_dict_eq list_ex_collect)
qed

lemma alloc_channels_lookup:
  assumes "alloc_channels g = Inr g'"
  shows "map_of (gpu_channels g') k =
     (if entries_for k (declared g) = [] then None
      else Some (sort_key entry_key (entries_for k (declared g))))"
proof -
  let ?ts = "sort_key tb_id (threadblocks g)"
  have m: "mset (entries_for k (decl_list ?ts)) = mset (entries_for k (declared g))"
    unfolding declared_def by (rule mset_entries_for) (rule mset_decl_list_sort)
  then have e: "entries_for k (decl_list ?ts) = [] \<longleftrightarrow> entries_for k (declared g) = []"
    by (metis mset_zero_iff)
  from assms have "gpu_channels g' = map (\<lambda>kv. (fst kv, sort_key entry_key (snd kv)))
                                    (collect_channels ?ts)"
    by (auto simp: alloc_channels_eq split: if_splits)
  then show ?thesis
    using sort_key_entry_mset [OF m] e
    by (simp add: map_of_sorted_dict map_of_collect)
qed



lemma mapE_alloc:
  "mapE alloc_channels gs =
     (if list_ex (\<lambda>g. any_mixed (declared g)) gs then Inl TypeError
      else Inr (map (\<lambda>g. g\<lparr>threadblocks := sort_key tb_id (threadblocks g),
                  gpu_channels := map (\<lambda>kv. (fst kv, sort_key entry_key (snd kv)))
                                    (collect_channels (sort_key tb_id (threadblocks g)))\<rparr>) gs))"
  by (induction gs) (simp_all add: alloc_channels_eq)









section \<open>Dependency simplification: results\<close>

lemma fold_over_concat: "fold f (concat xss) s = fold (fold f) xss s"
  by (induction xss arbitrary: s) simp_all

lemma for_each_tb_fold: "for_each_tb body p h = fold body (prog_tbs p) h"
  by (simp add: for_each_tb_def prog_tbs_def fold_over_concat fold_map comp_def)

lemma shrinks_refl: "shrinks h h"
  by (simp add: shrinks_def)

lemma shrinks_trans: "shrinks h h1 \<Longrightarrow> shrinks h1 h2 \<Longrightarrow> shrinks h h2"
  unfolding shrinks_def by blast

lemma no_repeated_dep_shrinks:
  "no_repeated_dep h as \<Longrightarrow> shrinks h h' \<Longrightarrow> no_repeated_dep h' as"
  unfolding no_repeated_dep_def shrinks_def by blast

lemma filter_redundant_props:
  "shrinks h (filter_redundant as run h) \<and>
   (\<forall>j<length as. set (depends (filter_redundant as run h (as ! j))) \<inter> set run = {}) \<and>
   no_repeated_dep (filter_redundant as run h) as"
proof (induction as arbitrary: run h)
  case Nil
  then show ?case by (simp add: shrinks_refl no_repeated_dep_def)
next
  case (Cons a as)
  define ds where "ds = filter (\<lambda>d. d \<notin> set run) (depends (h a))"
  define h1 where "h1 = h(a := (h a)\<lparr>depends := ds\<rparr>)"
  define h' where "h' = filter_redundant as (run @ ds) h1"
  have eq: "filter_redundant (a # as) run h = h'"
    by (simp add: h'_def h1_def ds_def Let_def)
  have s1: "shrinks h h1"
    by (auto simp: shrinks_def h1_def ds_def)
  from Cons.IH [where run = "run @ ds" and h = h1]
  have ih: "shrinks h1 h'"
    "\<forall>j<length as. set (depends (h' (as ! j))) \<inter> set (run @ ds) = {}"
    "no_repeated_dep h' as"
    by (simp_all add: h'_def)
  have sh: "shrinks h h'" using s1 ih(1) by (rule shrinks_trans)
  have "depends (h1 a) = ds" by (simp add: h1_def)
  moreover from ih(1) have "set (depends (h' a)) \<subseteq> set (depends (h1 a))"
    unfolding shrinks_def by blast
  ultimately have a_ds: "set (depends (h' a)) \<subseteq> set ds" by simp
  have run: "\<forall>j<length (a # as). set (depends (h' ((a # as) ! j))) \<inter> set run = {}"
  proof (intro allI impI)
    fix j assume "j < length (a # as)"
    show "set (depends (h' ((a # as) ! j))) \<inter> set run = {}"
    proof (cases j)
      case 0
      with a_ds show ?thesis by (auto simp: ds_def)
    next
      case (Suc k)
      with \<open>j < length (a # as)\<close> ih(2) show ?thesis by auto
    qed
  qed
  have nr: "no_repeated_dep h' (a # as)"
    unfolding no_repeated_dep_def
  proof (intro allI impI)
    fix j i assume j: "j < length (a # as)" and i: "i < j"
    then obtain k where k: "j = Suc k" by (cases j) auto
    show "set (depends (h' ((a # as) ! j))) \<inter> set (depends (h' ((a # as) ! i))) = {}"
    proof (cases i)
      case 0
      from j k ih(2) have "set (depends (h' (as ! k))) \<inter> set (run @ ds) = {}" by simp
      with a_ds 0 k show ?thesis by auto
    next
      case (Suc m)
      with i j k ih(3) show ?thesis by (simp add: no_repeated_dep_def)
    qed
  qed
  from sh run nr show ?case by (simp only: eq simp_thms)
qed

lemma fold_filter_redundant_shrinks:
  "shrinks h (fold (\<lambda>t. filter_redundant (ops t) []) ts h)"
proof (induction ts arbitrary: h)
  case Nil
  then show ?case by (simp add: shrinks_refl)
next
  case (Cons t ts)
  have "shrinks h (filter_redundant (ops t) [] h)" using filter_redundant_props by blast
  then show ?case using Cons.IH by (auto intro: shrinks_trans)
qed

lemma fold_filter_redundant_no_repeat:
  "t \<in> set ts \<Longrightarrow> no_repeated_dep (fold (\<lambda>t. filter_redundant (ops t) []) ts h) (ops t)"
proof (induction ts arbitrary: h)
  case Nil
  then show ?case by simp
next
  case (Cons u ts)
  show ?case
  proof (cases "t \<in> set ts")
    case True
    then show ?thesis using Cons.IH by simp
  next
    case False
    with Cons.prems have "u = t" by simp
    have "no_repeated_dep (filter_redundant (ops t) [] h) (ops t)"
      using filter_redundant_props by blast
    then show ?thesis
      using fold_filter_redundant_shrinks \<open>u = t\<close>
      by (auto intro: no_repeated_dep_shrinks)
  qed
qed

lemma stage_no_repeat:
  "t \<in> set (prog_tbs p) \<Longrightarrow> no_repeated_dep (filter_redundant_stage p h) (ops t)"
  by (simp add: filter_redundant_stage_def for_each_tb_fold fold_filter_redundant_no_repeat)

lemma filter_redundant_frame:
  "x \<notin> set as \<Longrightarrow> filter_redundant as run h x = h x"
  by (induction as arbitrary: run h) (auto simp: Let_def)

lemma filter_redundant_deps:
  assumes "distinct as" and "j < length as"
  shows "depends (filter_redundant as run h (as ! j)) =
     filter (\<lambda>d. d \<notin> set run \<union> set (concat (map (\<lambda>a. depends (h a)) (take j as))))
       (depends (h (as ! j)))"
  using assms
proof (induction as arbitrary: run h j)
  case Nil
  then show ?case by simp
next
  case (Cons a as)
  define ds where "ds = filter (\<lambda>d. d \<notin> set run) (depends (h a))"
  define h1 where "h1 = h(a := (h a)\<lparr>depends := ds\<rparr>)"
  have eq: "filter_redundant (a # as) run h = filter_redundant as (run @ ds) h1"
    by (simp add: h1_def ds_def Let_def)
  from Cons.prems have a: "a \<notin> set as" and d: "distinct as" by simp_all
  have same: "h1 x = h x" if "x \<in> set as" for x
    using that a by (auto simp: h1_def)
  show ?case
  proof (cases j)
    case 0
    have "filter_redundant as (run @ ds) h1 a = h1 a"
      using a by (rule filter_redundant_frame)
    moreover have "depends (h1 a) = ds" by (simp add: h1_def)
    ultimately have "depends (filter_redundant (a # as) run h a) = ds"
      by (simp only: eq)
    then show ?thesis using 0 by (simp add: ds_def)
  next
    case (Suc k)
    with Cons.prems have k: "k < length as" by simp
    have t: "map (\<lambda>a. depends (h1 a)) (take k as) = map (\<lambda>a. depends (h a)) (take k as)"
      by (rule map_cong [OF refl]) (auto dest: in_set_takeD simp: same)
    have n: "h1 (as ! k) = h (as ! k)" using k by (simp add: same)
    have mem: "(d \<notin> set (run @ ds) \<union> X) = (d \<notin> set run \<union> (set (depends (h a)) \<union> X))" for d X
      by (auto simp: ds_def)
    from Cons.IH [OF d k, where run = "run @ ds" and h = h1]
    have "depends (filter_redundant as (run @ ds) h1 (as ! k)) =
        filter (\<lambda>d. d \<notin> set (run @ ds) \<union> set (concat (map (\<lambda>a. depends (h a)) (take k as))))
          (depends (h (as ! k)))"
      by (simp only: t n)
    then show ?thesis using Suc by (simp only: eq mem) simp
  qed
qed

lemma fold_filter_redundant_frame:
  "x \<notin> set (concat (map ops ts)) \<Longrightarrow> fold (\<lambda>t. filter_redundant (ops t) []) ts h x = h x"
proof (induction ts arbitrary: h)
  case Nil
  then show ?case by simp
next
  case (Cons u ts)
  then show ?case by (simp add: filter_redundant_frame)
qed

lemma reduced_deps_cong:
  "(\<And>x. x \<in> set as \<Longrightarrow> h1 x = h x) \<Longrightarrow> j < length as \<Longrightarrow>
     reduced_deps h1 as j = reduced_deps h as j"
proof -
  assume same: "\<And>x. x \<in> set as \<Longrightarrow> h1 x = h x" and j: "j < length as"
  have "map (\<lambda>a. depends (h1 a)) (take j as) = map (\<lambda>a. depends (h a)) (take j as)"
    by (rule map_cong [OF refl]) (auto dest: in_set_takeD simp: same)
  moreover have "h1 (as ! j) = h (as ! j)" using j by (simp add: same)
  ultimately show ?thesis by (simp add: reduced_deps_def)
qed

lemma fold_filter_redundant_deps:
  assumes "distinct (concat (map ops ts))" and "t \<in> set ts" and "j < length (ops t)"
  shows "depends (fold (\<lambda>t. filter_redundant (ops t) []) ts h (ops t ! j)) =
     reduced_deps h (ops t) j"
  using assms
proof (induction ts arbitrary: h)
  case Nil
  then show ?case by simp
next
  case (Cons u ts)
  define h1 where "h1 = filter_redundant (ops u) [] h"
  from Cons.prems(1) have du: "distinct (ops u)" and dts: "distinct (concat (map ops ts))"
    and disj: "set (ops u) \<inter> set (concat (map ops ts)) = {}"
    by simp_all
  show ?case
  proof (cases "t \<in> set ts")
    case True
    then have sub: "set (ops t) \<subseteq> set (concat (map ops ts))" by auto
    with disj have "x \<in> set (ops t) \<Longrightarrow> x \<notin> set (ops u)" for x by auto
    then have same: "x \<in> set (ops t) \<Longrightarrow> h1 x = h x" for x
      by (simp add: h1_def filter_redundant_frame)
    from Cons.IH [OF dts True Cons.prems(3), of h1]
    have "depends (fold (\<lambda>t. filter_redundant (ops t) []) ts h1 (ops t ! j)) =
        reduced_deps h1 (ops t) j" .
    also have "\<dots> = reduced_deps h (ops t) j"
      using same Cons.prems(3) by (rule reduced_deps_cong)
    finally show ?thesis by (simp add: h1_def)
  next
    case False
    with Cons.prems(2) have ut: "u = t" by simp
    from Cons.prems(3) have "ops t ! j \<in> set (ops t)" by simp
    with disj ut have "ops t ! j \<notin> set (concat (map ops ts))" by auto
    then have "fold (\<lambda>t. filter_redundant (ops t) []) ts h1 (ops t ! j) = h1 (ops t ! j)"
      by (rule fold_filter_redundant_frame)
    moreover have "depends (h1 (ops t ! j)) = reduced_deps h (ops t) j"
      using filter_redundant_deps [OF du [unfolded ut] Cons.prems(3), of "[]" h] ut
      by (simp add: h1_def reduced_deps_def)
    ultimately show ?thesis by (simp add: h1_def ut)
  qed
qed

lemma stage_reduced:
  "distinct (all_ops p) \<Longrightarrow> t \<in> set (prog_tbs p) \<Longrightarrow> j < length (ops t) \<Longrightarrow>
     depends (filter_redundant_stage p h (ops t ! j)) = reduced_deps h (ops t) j"
  by (simp add: filter_redundant_stage_def for_each_tb_fold all_ops_def fold_filter_redundant_deps)

text \<open>
  Claim C9. After the redundant-dependency filter (lines 112 to 117, the same code in
  both modules) no op of a threadblock lists a dependency that an earlier op of the
  same threadblock lists. When no op object occurs twice in the program, the op at
  position j of a threadblock keeps exactly those of its dependencies, in order, that
  none of the ops before it listed: the running list holds what the earlier ops kept,
  which covers what they listed.
\<close>

theorem redundant_filter_streaming:
  "(\<forall>t\<in>set (prog_tbs p). no_repeated_dep (filter_redundant_stage p h) (ops t))
   \<and> (distinct (all_ops p) \<longrightarrow>
        (\<forall>t\<in>set (prog_tbs p). \<forall>j<length (ops t).
            depends (filter_redundant_stage p h (ops t ! j)) = reduced_deps h (ops t) j))"
  using stage_no_repeat stage_reduced by blast

lemma exD_tbs: "prog_tbs exD = [mk_tb 0 [1, 2, 3] [], mk_tb 1 [7, 8, 9, 10] []]"
  by (simp add: exD_def prog_tbs_def mk_program_def mk_gpu_def)

lemma exD_distinct: "distinct (all_ops exD)"
  by (simp add: all_ops_def exD_tbs mk_tb_def)

lemma ops_mk_tb: "ops (mk_tb i os cs) = os"
  by (simp add: mk_tb_def)

theorem redundant_filter_streaming_witness:
  "distinct (all_ops exD)
   \<and> mk_tb 0 [1, 2, 3] [] \<in> set (prog_tbs exD)
   \<and> map (\<lambda>a. depends (filter_redundant_stage exD exD_store a)) [1, 2, 3] = [[7], [8], [9, 10]]
   \<and> no_repeated_dep (filter_redundant_stage exD exD_store) [1, 2, 3]"
proof -
  let ?t = "mk_tb 0 [1, 2, 3] []"
  have m: "?t \<in> set (prog_tbs exD)" by (simp add: exD_tbs)
  note c9 = redundant_filter_streaming [of exD exD_store]
  from c9 m have nr: "no_repeated_dep (filter_redundant_stage exD exD_store) (ops ?t)"
    by blast
  from c9 exD_distinct m
  have r: "\<forall>j<length (ops ?t).
      depends (filter_redundant_stage exD exD_store (ops ?t ! j)) = reduced_deps exD_store (ops ?t) j"
    by blast
  have "depends (filter_redundant_stage exD exD_store 1) = reduced_deps exD_store [1, 2, 3] 0"
    using r [rule_format, of 0] by (simp add: ops_mk_tb)
  moreover have "depends (filter_redundant_stage exD exD_store 2) = reduced_deps exD_store [1, 2, 3] 1"
    using r [rule_format, of 1] by (simp add: ops_mk_tb)
  moreover have "depends (filter_redundant_stage exD exD_store 3) = reduced_deps exD_store [1, 2, 3] 2"
    using r [rule_format, of 2] by (simp add: ops_mk_tb)
  moreover have "reduced_deps exD_store [1, 2, 3] 0 = [7]"
    "reduced_deps exD_store [1, 2, 3] 1 = [8]"
    "reduced_deps exD_store [1, 2, 3] 2 = [9, 10]"
    by (simp_all add: reduced_deps_def exD_store_def new_nop_def take_Suc_conv_app_nth)
  ultimately show ?thesis using exD_distinct m nr by (simp add: ops_mk_tb)
qed

section \<open>Synchronization lowering: results\<close>
















subsection \<open>One marker per dependency\<close>
























subsection \<open>Simplification and renumbering\<close>

















section \<open>Serializer: results\<close>

lemma bindE_Inr: "bindE m f = Inr y \<longleftrightarrow> (\<exists>x. m = Inr x \<and> f x = Inr y)"
  by (cases m) (simp_all add: bindE_def)

lemma bindE_Inl: "m = Inl e \<Longrightarrow> bindE m f = Inl e"
  by (simp add: bindE_def)

lemma mapE_Inr_mem:
  "mapE f xs = Inr ys \<Longrightarrow> x \<in> set xs \<Longrightarrow> \<exists>y. f x = Inr y"
proof (induction xs arbitrary: ys)
  case Nil
  then show ?case by simp
next
  case (Cons a xs)
  then show ?case by (auto split: sum.splits)
qed

lemma mapE_total: "mapE (\<lambda>x. Inr (g x)) xs = Inr (map g xs)"
  by (induction xs) simp_all




lemma get_channel_ids_missing:
  assumes "map_of d (s, t, ct) = None" and "ct = nvls \<or> cs \<noteq> []"
  shows "get_channel_ids cs d s t ct = Inl KeyError"
proof (cases "ct = nvls")
  case True
  with assms(1) show ?thesis by (simp add: get_channel_ids_def)
next
  case False
  with assms(2) obtain c cs' where "cs = c # cs'" by (cases cs) auto
  with False assms(1) show ?thesis by (simp add: get_channel_ids_def bindE_def)
qed

lemma get_channel_ids_present:
  assumes "map_of d (s, t, ct) = Some obj" and "ct \<noteq> nvls"
  shows "get_channel_ids cs d s t ct =
     Inr (concat (map (\<lambda>c. map (\<lambda>ie. JObj [(''id'', JInt (int (fst ie))), (''off'', JInt (index c))])
                              (filter (\<lambda>ie. snd ie = Rank (rank c))
                                 (enumerate 0 (connectedTo obj)))) cs))"
  using assms by (simp add: get_channel_ids_def mapE_total bindE_def)

lemma dump_op_needed:
  assumes "dump_to_json tm p h = Inr doc" and "g \<in> set (gpus p)"
    and "t \<in> set (threadblocks g)" and "0 \<le> tb_id t" and "a \<in> set (ops t)"
  shows "\<exists>j. dump_op tm h (tb_channel_dict_of tm g (tb_id t)) a = Inr j"
proof -
  let ?f = "dump_gpu tm h p (Max (set (map input_chunks (gpus p))))
              (Max (set (map output_chunks (gpus p)))) (Max (set (map scratch_chunks (gpus p))))"
  from assms(1) obtain gs where m: "mapE ?f (enumerate 0 (gpus p)) = Inr gs"
    by (auto simp: dump_to_json_def Let_def bindE_Inr split: if_splits)
  from assms(2) obtain i where "i < length (gpus p)" "gpus p ! i = g"
    by (auto simp: in_set_conv_nth)
  then have "(i, g) \<in> set (enumerate 0 (gpus p))" by (auto simp: in_set_enumerate_eq)
  from mapE_Inr_mem [OF m this] obtain j where "?f (i, g) = Inr j" by blast
  then obtain ts where "mapE (dump_tb tm h g) (threadblocks g) = Inr ts"
    by (auto simp: dump_gpu_def bindE_Inr)
  from mapE_Inr_mem [OF this assms(3)] obtain jt where "dump_tb tm h g t = Inr jt" by blast
  with assms(4) obtain os where
    "mapE (dump_op tm h (tb_channel_dict_of tm g (tb_id t))) (ops t) = Inr os"
    by (auto simp: dump_tb_def Let_def bindE_Inr)
  from mapE_Inr_mem [OF this assms(5)] show ?thesis .
qed

text \<open>
  Claim C5. \<^verbatim>\<open>get_channel_ids\<close> raises \<open>KeyError\<close> when the threadblock's channel dict has
  no entry under the key (source buffer, destination buffer, channel type) and the key
  is looked up: always for the multicast type, for the other types when the chunk list
  is not empty. When an entry exists and the type is not multicast it raises nothing:
  it returns, chunk by chunk, the positions of the targets equal to the chunk's rank,
  which is the empty list when no target matches. When the serialization of an op of a
  threadblock with a non-negative id raises, the whole pass returns no document.
\<close>

theorem channel_lookup_errors:
  "(map_of d (s, t, ct) = None \<longrightarrow> ct = nvls \<or> cs \<noteq> [] \<longrightarrow>
      get_channel_ids cs d s t ct = Inl KeyError)
   \<and> (map_of d (s, t, ct) = Some obj \<longrightarrow> ct \<noteq> nvls \<longrightarrow>
      get_channel_ids cs d s t ct =
        Inr (concat (map (\<lambda>c. map (\<lambda>ie. JObj [(''id'', JInt (int (fst ie))),
                                                (''off'', JInt (index c))])
                                 (filter (\<lambda>ie. snd ie = Rank (rank c))
                                    (enumerate 0 (connectedTo obj)))) cs)))
   \<and> (ir_stages p h = Inr (p3, h3) \<longrightarrow> g \<in> set (gpus p3) \<longrightarrow> tb' \<in> set (threadblocks g) \<longrightarrow>
      0 \<le> tb_id tb' \<longrightarrow> a \<in> set (ops tb') \<longrightarrow>
      dump_op tm h3 (tb_channel_dict_of tm g (tb_id tb')) a = Inl e \<longrightarrow>
      (\<exists>e'. ir_to_json tm p h = Inl e'))"
proof (intro conjI impI)
  assume "map_of d (s, t, ct) = None" "ct = nvls \<or> cs \<noteq> []"
  then show "get_channel_ids cs d s t ct = Inl KeyError" by (rule get_channel_ids_missing)
next
  assume "map_of d (s, t, ct) = Some obj" "ct \<noteq> nvls"
  then show "get_channel_ids cs d s t ct =
        Inr (concat (map (\<lambda>c. map (\<lambda>ie. JObj [(''id'', JInt (int (fst ie))),
                                                (''off'', JInt (index c))])
                                 (filter (\<lambda>ie. snd ie = Rank (rank c))
                                    (enumerate 0 (connectedTo obj)))) cs))"
    by (rule get_channel_ids_present)
next
  assume st: "ir_stages p h = Inr (p3, h3)" and g: "g \<in> set (gpus p3)"
    and t: "tb' \<in> set (threadblocks g)" "0 \<le> tb_id tb'" and a: "a \<in> set (ops tb')"
    and e: "dump_op tm h3 (tb_channel_dict_of tm g (tb_id tb')) a = Inl e"
  show "\<exists>e'. ir_to_json tm p h = Inl e'"
  proof (cases "ir_to_json tm p h")
    case (Inl e')
    then show ?thesis by blast
  next
    case (Inr doc)
    with st have "dump_to_json tm p3 h3 = Inr doc" by (simp add: ir_to_json_def bindE_def)
    from dump_op_needed [OF this g t a] e show ?thesis by simp
  qed
qed

theorem channel_lookup_errors_witness:
  "get_channel_ids [chunk 2 scratch_buf 0 1] [] input_buf scratch_buf sm = Inl KeyError
   \<and> get_channel_ids [chunk 2 scratch_buf 0 1]
        [((input_buf, scratch_buf, sm),
          \<lparr>srcbuff = ''i'', dstbuff = ''s'', type_value = ''sm'', connectedTo = [Rank 1, Rank 2],
           chanIds = [0, 1]\<rparr>)] input_buf scratch_buf sm =
       Inr [JObj [(''id'', JInt 1), (''off'', JInt 0)]]
   \<and> ir_to_json example_types
        (mk_program ''Simple'' [mk_gpu 0 [mk_tb 0 [1] []] 0 0 0]) exQ_store = Inl KeyError"
proof -
  let ?d = "[((input_buf, scratch_buf, sm),
          \<lparr>srcbuff = ''i'', dstbuff = ''s'', type_value = ''sm'', connectedTo = [Rank 1, Rank 2],
           chanIds = [0, 1]\<rparr>)]"
  let ?p = "mk_program ''Simple'' [mk_gpu 0 [mk_tb 0 [1] []] 0 0 0]"
  note c5a = channel_lookup_errors [of "[]" input_buf scratch_buf sm "[chunk 2 scratch_buf 0 1]"]
  have a: "get_channel_ids [chunk 2 scratch_buf 0 1] [] input_buf scratch_buf sm = Inl KeyError"
    using c5a by simp
  note c5b = channel_lookup_errors [of ?d input_buf scratch_buf sm "[chunk 2 scratch_buf 0 1]"
      "snd (hd ?d)"]
  have b: "get_channel_ids [chunk 2 scratch_buf 0 1] ?d input_buf scratch_buf sm =
       Inr [JObj [(''id'', JInt 1), (''off'', JInt 0)]]"
    using c5b by (simp add: chunk_def enumerate_eq_zip)
  let ?p2 = "?p\<lparr>gpus := [(mk_gpu 0 [mk_tb 0 [1] []] 1 0 0)]\<rparr>"
  have b1: "buffer_stage exQ_store ?p = Inr ?p2" by code_simp
  have b2: "channel_stage ?p2 = Inr ?p2" by code_simp
  have st: "ir_stages ?p exQ_store = Inr (fst (sync_stages ?p2 exQ_store),
      snd (sync_stages ?p2 exQ_store))"
    by (simp only: ir_stages_def bindE_def b1 b2 sum.case prod.collapse)
  let ?p3 = "fst (sync_stages (?p\<lparr>gpus := [(mk_gpu 0 [mk_tb 0 [1] []] 1 0 0)]\<rparr>) exQ_store)"
  let ?h3 = "snd (sync_stages (?p\<lparr>gpus := [(mk_gpu 0 [mk_tb 0 [1] []] 1 0 0)]\<rparr>) exQ_store)"
  have g: "mk_gpu 0 [mk_tb 0 [1] []] 1 0 0 \<in> set (gpus ?p3)" by code_simp
  have t: "mk_tb 0 [1] [] \<in> set (threadblocks (mk_gpu 0 [mk_tb 0 [1] []] 1 0 0))"
    "0 \<le> tb_id (mk_tb 0 [1] [])" "1 \<in> set (ops (mk_tb 0 [1] []))"
    by (simp_all add: mk_gpu_def mk_tb_def)
  have e: "dump_op example_types ?h3
      (tb_channel_dict_of example_types (mk_gpu 0 [mk_tb 0 [1] []] 1 0 0) (tb_id (mk_tb 0 [1] []))) 1 =
      Inl KeyError"
    by code_simp
  from channel_lookup_errors [of _ _ _ _ _ _ ?p exQ_store ?p3 ?h3
      "mk_gpu 0 [mk_tb 0 [1] []] 1 0 0" "mk_tb 0 [1] []" 1 example_types KeyError] st g t e
  obtain e' where e': "ir_to_json example_types ?p exQ_store = Inl e'" by blast
  have "ir_to_json example_types ?p exQ_store = Inl KeyError" by code_simp
  with a b e' show ?thesis by simp
qed

text \<open>
  The table entry of threadblock 0 is connected to rank 1 only, the put names a chunk
  of rank 2: the pass returns a document in which the put has no \<open>o_cids\<close>.
\<close>

theorem unmatched_target_no_error:
  "dict_report (channel_stage exQ) = Inr [[((input_buf, scratch_buf, sm), [(0, Rank 1)])]]
   \<and> dsts (exQ_store 1) = [chunk 2 scratch_buf 0 1]
   \<and> ir_to_json example_types exQ exQ_store =
      Inr (JObj
       [(''name'', JStr ''example''), (''collective'', JStr ''allreduce''),
        (''protocol'', JStr ''Simple''), (''inplace'', JBool False),
        (''gpus'',
         JList
          [JObj
            [(''id'', JInt 0), (''inputChunks'', JInt 1),
             (''outputChunks'', JInt 0), (''scratchChunks'', JInt 0),
             (''chunkGroups'', JInt 1),
             (''threadblocks'',
              JList
               [JObj
                 [(''id'', JInt 0),
                  (''ops'',
                   JList
                    [JObj
                      [(''name'', JStr ''put''),
                       (''o_buff'',
                        JObj
                         [(''src'', JStr ''i''), (''dst'', JStr ''s'')]),
                       (''ctype'', JStr ''sm''), (''cnt'', JInt 1)]]),
                  (''channels'',
                   JList
                    [JObj
                      [(''src'', JStr ''i''), (''dst'', JStr ''s''),
                       (''ctype'', JStr ''sm''),
                       (''cids'', JList [JInt 0])]])]]),
             (''channels'',
              JList
               [JObj
                 [(''srcbuff'', JStr ''i''), (''dstbuff'', JStr ''s''),
                  (''type'', JStr ''sm''),
                  (''connectedTo'', JList [JInt 1])]])]]),
        (''num_threads_per_block'', JInt 1024),
        (''use_double_scratch_buffer'', JBool False),
        (''min_message_size'', JInt 0), (''max_message_size'', JInt 1024)])"
  by code_simp

lemma nvls_match_set: "set ranks = set ranks' \<Longrightarrow> nvls_match ranks = nvls_match ranks'"
  by (auto simp: nvls_match_def fun_eq_iff split: target.splits)

lemma mapE_nvls_match:
  "mapE (nvls_match ranks) (enumerate n (map Ranks rss)) =
     Inr (map (\<lambda>ie. (fst ie, set (snd ie) = set ranks)) (enumerate n rss))"
  by (induction rss arbitrary: n) (simp_all add: nvls_match_def)

lemma get_channel_ids_nvls:
  assumes "map_of d (s, t, nvls) = Some obj" and "connectedTo obj = map Ranks rss"
  shows "get_channel_ids cs d s t nvls =
     Inr (map (\<lambda>ie. JObj [(''id'', JInt (int (fst ie)))])
            (filter (\<lambda>ie. set (snd ie) = set (map rank cs)) (enumerate 0 rss)))"
proof -
  have "map (\<lambda>m. JObj [(''id'', JInt (int (fst m)))])
          (filter snd (map (\<lambda>ie. (fst ie, set (snd ie) = set (map rank cs))) (enumerate 0 rss))) =
        map (\<lambda>ie. JObj [(''id'', JInt (int (fst ie)))])
            (filter (\<lambda>ie. set (snd ie) = set (map rank cs)) (enumerate 0 rss))"
    by (simp add: filter_map comp_def)
  with assms show ?thesis
    by (simp add: get_channel_ids_def mapE_nvls_match bindE_def)
qed

text \<open>
  Claim C7. The allocator keeps one table entry per declared channel: the list under a
  key is the sorted list of all (threadblock id, connection target) pairs declared with
  that key, whatever the targets are. Equality of rank sets is used only when an op's
  channel ids are looked up: for the multicast type \<^verbatim>\<open>get_channel_ids\<close> depends only on
  the set of the chunks' ranks and returns the positions of all targets with that set
  of ranks.
\<close>

theorem multicast_entries_kept:
  "(alloc_channels g = Inr g' \<longrightarrow>
      map_of (gpu_channels g') k =
        (if entries_for k (declared g) = [] then None
         else Some (sort_key entry_key (entries_for k (declared g)))))
   \<and> (set (map rank cs) = set (map rank cs') \<longrightarrow>
        get_channel_ids cs d s t nvls = get_channel_ids cs' d s t nvls)
   \<and> (map_of d (s, t, nvls) = Some obj \<longrightarrow> connectedTo obj = map Ranks rss \<longrightarrow>
        get_channel_ids cs d s t nvls =
          Inr (map (\<lambda>ie. JObj [(''id'', JInt (int (fst ie)))])
                 (filter (\<lambda>ie. set (snd ie) = set (map rank cs)) (enumerate 0 rss))))"
proof (intro conjI impI)
  assume "alloc_channels g = Inr g'"
  then show "map_of (gpu_channels g') k =
        (if entries_for k (declared g) = [] then None
         else Some (sort_key entry_key (entries_for k (declared g))))"
    by (rule alloc_channels_lookup)
next
  assume "set (map rank cs) = set (map rank cs')"
  then have "nvls_match (map rank cs) = nvls_match (map rank cs')" by (rule nvls_match_set)
  then show "get_channel_ids cs d s t nvls = get_channel_ids cs' d s t nvls"
    by (simp add: get_channel_ids_def split: option.splits)
next
  assume "map_of d (s, t, nvls) = Some obj" "connectedTo obj = map Ranks rss"
  then show "get_channel_ids cs d s t nvls =
          Inr (map (\<lambda>ie. JObj [(''id'', JInt (int (fst ie)))])
                 (filter (\<lambda>ie. set (snd ie) = set (map rank cs)) (enumerate 0 rss)))"
    by (rule get_channel_ids_nvls)
qed

theorem multicast_entries_kept_witness:
  "entries_for (input_buf, input_buf, nvls) (declared exM_gpu) =
       [(0, Ranks [1, 2]), (0, Ranks [2, 1]), (0, Ranks [1, 3])]
   \<and> map_sum id (\<lambda>g. map_of (gpu_channels g) (input_buf, input_buf, nvls)) (alloc_channels exM_gpu) =
       Inr (Some [(0, Ranks [1, 2]), (0, Ranks [1, 3]), (0, Ranks [2, 1])])
   \<and> get_channel_ids [chunk 2 input_buf 0 1, chunk 1 input_buf 0 1]
        [((input_buf, input_buf, nvls),
          \<lparr>srcbuff = ''i'', dstbuff = ''i'', type_value = ''nvls'',
           connectedTo = [Ranks [1, 2], Ranks [1, 3], Ranks [2, 1]], chanIds = [0, 1, 2]\<rparr>)]
        input_buf input_buf nvls =
       Inr [JObj [(''id'', JInt 0)], JObj [(''id'', JInt 2)]]
   \<and> get_channel_ids [chunk 1 input_buf 0 1, chunk 2 input_buf 0 1]
        [((input_buf, input_buf, nvls),
          \<lparr>srcbuff = ''i'', dstbuff = ''i'', type_value = ''nvls'',
           connectedTo = [Ranks [1, 2], Ranks [1, 3], Ranks [2, 1]], chanIds = [0, 1, 2]\<rparr>)]
        input_buf input_buf nvls =
       Inr [JObj [(''id'', JInt 0)], JObj [(''id'', JInt 2)]]"
proof -
  let ?k = "(input_buf, input_buf, nvls)"
  let ?obj = "\<lparr>srcbuff = ''i'', dstbuff = ''i'', type_value = ''nvls'',
           connectedTo = [Ranks [1, 2], Ranks [1, 3], Ranks [2, 1]], chanIds = [0, 1, 2]\<rparr>"
  let ?d = "[(?k, ?obj)]"
  let ?cs = "[chunk 2 input_buf 0 1, chunk 1 input_buf 0 1]"
  let ?cs' = "[chunk 1 input_buf 0 1, chunk 2 input_buf 0 1]"
  have en: "entries_for ?k (declared exM_gpu) =
       [(0, Ranks [1, 2]), (0, Ranks [2, 1]), (0, Ranks [1, 3])]"
    by (simp add: exM_gpu_def mk_gpu_def mk_tb_def declared_def decl_list_def
          entries_for_def chan_key_of_def nvls_chan_def)
  obtain g' where al: "alloc_channels exM_gpu = Inr g'"
    by (cases "alloc_channels exM_gpu")
       (simp_all add: alloc_channels_def exM_gpu_def mk_gpu_def mk_tb_def collect_channels_def
          chan_key_of_def nvls_chan_def sort_dict_def sorted_entries_def mixed_targets_def)
  note c7 = multicast_entries_kept [of exM_gpu g' ?k ?cs ?cs' ?d input_buf input_buf ?obj
      "[[1, 2], [1, 3], [2, 1]]"]
  from c7 al have "map_of (gpu_channels g') ?k =
      Some (sort_key entry_key (entries_for ?k (declared exM_gpu)))"
    by (simp add: en)
  then have a: "map_sum id (\<lambda>g. map_of (gpu_channels g) ?k) (alloc_channels exM_gpu) =
       Inr (Some [(0, Ranks [1, 2]), (0, Ranks [1, 3]), (0, Ranks [2, 1])])"
    by (simp add: al en)
  have r: "set (map rank ?cs) = set (map rank ?cs')" by (auto simp: chunk_def)
  from c7 r have eq: "get_channel_ids ?cs ?d input_buf input_buf nvls =
      get_channel_ids ?cs' ?d input_buf input_buf nvls" by blast
  from c7 have "get_channel_ids ?cs ?d input_buf input_buf nvls =
          Inr (map (\<lambda>ie. JObj [(''id'', JInt (int (fst ie)))])
                 (filter (\<lambda>ie. set (snd ie) = set (map rank ?cs))
                    (enumerate 0 [[1, 2], [1, 3], [2, 1]])))"
    by simp
  also have "\<dots> = Inr [JObj [(''id'', JInt 0)], JObj [(''id'', JInt 2)]]"
    by code_simp
  finally have b: "get_channel_ids ?cs ?d input_buf input_buf nvls =
      Inr [JObj [(''id'', JInt 0)], JObj [(''id'', JInt 2)]]" .
  from en a b eq show ?thesis by simp
qed

text \<open>
  The three declared multicast channels give three table entries, three channel ids for
  the threadblock and three rank groups in the document.
\<close>

theorem three_multicast_channels:
  "dict_report (channel_stage exM) =
     Inr [[((input_buf, input_buf, nvls),
            [(0, Ranks [1, 2]), (0, Ranks [1, 3]), (0, Ranks [2, 1])])]]
   \<and> ir_to_json example_types exM (\<lambda>a. new_nop) =
     Inr (JObj
       [(''name'', JStr ''example''), (''collective'', JStr ''allreduce''),
        (''protocol'', JStr ''Simple''), (''inplace'', JBool False),
        (''gpus'',
         JList
          [JObj
            [(''id'', JInt 0), (''inputChunks'', JInt 4),
             (''outputChunks'', JInt 4), (''scratchChunks'', JInt 0),
             (''chunkGroups'', JInt 1),
             (''threadblocks'',
              JList
               [JObj
                 [(''id'', JInt 0), (''ops'', JList []),
                  (''channels'',
                   JList
                    [JObj
                      [(''src'', JStr ''i''), (''dst'', JStr ''i''),
                       (''ctype'', JStr ''nvls''),
                       (''cids'', JList [JInt 0, JInt 1, JInt 2])]])]]),
             (''channels'',
              JList
               [JObj
                 [(''buff'', JStr ''i''), (''type'', JStr ''nvls''),
                  (''rankGroups'',
                   JList
                    [JObj
                      [(''size'', JInt 4),
                       (''ranks'', JList [JInt 1, JInt 2])],
                     JObj
                      [(''size'', JInt 4),
                       (''ranks'', JList [JInt 1, JInt 3])],
                     JObj
                      [(''size'', JInt 4),
                       (''ranks'', JList [JInt 1, JInt 2])]])]])]]),
        (''num_threads_per_block'', JInt 1024),
        (''use_double_scratch_buffer'', JBool False),
        (''min_message_size'', JInt 0), (''max_message_size'', JInt 1024)])"
  by code_simp

lemma dump_tb_ids:
  "mapE (dump_tb tm h g) ts = Inr js \<Longrightarrow>
   map (field ''id'') (List.map_filter (\<lambda>x. x) js) =
     map (\<lambda>t. JInt (tb_id t)) (filter (\<lambda>t. 0 \<le> tb_id t) ts)"
proof (induction ts arbitrary: js)
  case Nil
  then show ?case by (simp add: List.map_filter_simps)
next
  case (Cons t ts)
  from Cons.prems obtain j zs where e: "dump_tb tm h g t = Inr j" "mapE (dump_tb tm h g) ts = Inr zs"
    "js = j # zs" by (auto split: sum.splits)
  note ih = Cons.IH [OF e(2)]
  show ?case
  proof (cases "tb_id t < 0")
    case True
    with e(1) have "j = None" by (simp add: dump_tb_def)
    with True ih e(3) show ?thesis by (simp add: List.map_filter_simps)
  next
    case False
    with e(1) obtain fs where "j = Some (JObj ((''id'', JInt (tb_id t)) # fs))"
      by (auto simp: dump_tb_def Let_def bindE_Inr)
    with False ih e(3) show ?thesis by (simp add: List.map_filter_simps field_def)
  qed
qed

lemma dump_gpu_tb_ids:
  assumes "dump_gpu tm h p mi mo ms (i, g) = Inr doc"
  shows "map (field ''id'') (items (field ''threadblocks'' doc)) =
     map (\<lambda>t. JInt (tb_id t)) (filter (\<lambda>t. 0 \<le> tb_id t) (threadblocks g))"
proof -
  from assms obtain cs ts where m: "mapE (dump_tb tm h g) (threadblocks g) = Inr ts"
    and d: "doc = JObj [(''id'', JInt (int i)),
                     (''inputChunks'', JInt (input_chunks g)),
                     (''outputChunks'', JInt (output_chunks g)),
                     (''scratchChunks'', JInt (scratch_chunks g)),
                     (''chunkGroups'', JInt (num_chunk_groups p)),
                     (''threadblocks'', JList (List.map_filter (\<lambda>x. x) ts)),
                     (''channels'', JList cs)]"
    by (auto simp: dump_gpu_def bindE_Inr)
  from d have "items (field ''threadblocks'' doc) = List.map_filter (\<lambda>x. x) ts"
    by (simp add: field_def items_def)
  with dump_tb_ids [OF m] show ?thesis by simp
qed

text \<open>
  Claim C10. A threadblock with a negative id adds nothing to the \<open>threadblocks\<close> list
  of its device (line 230): the ids in that list are the non-negative ids of the
  device's threadblocks, in order. On the example its copy raises the scratch capacity from 0
  to 5, its channel is entry 0 of the table, so that the channel of threadblock 0 is
  entry 1 and not 0, and the device-level \<open>channels\<close> list names rank 1: the documents
  with and without the threadblock differ in \<open>scratchChunks\<close>, \<open>cids\<close> and \<open>connectedTo\<close>.
\<close>

theorem negative_tb_counted_not_serialized:
  "(tb_id t < 0 \<longrightarrow> dump_tb tm h g t = Inr None)
   \<and> (dump_gpu tm h p mi mo ms (i, g) = Inr doc \<longrightarrow>
        map (field ''id'') (items (field ''threadblocks'' doc)) =
          map (\<lambda>t. JInt (tb_id t)) (filter (\<lambda>t. 0 \<le> tb_id t) (threadblocks g)))
   \<and> scratch_report (buffer_stage exN_store exN) = Inr [5]
   \<and> scratch_report (buffer_stage exN_store exN_without) = Inr [0]
   \<and> dict_report (channel_stage exN) =
       Inr [[((input_buf, scratch_buf, sm), [(- 1, Rank 1), (0, Rank 2)])]]
   \<and> dict_report (channel_stage exN_without) =
       Inr [[((input_buf, scratch_buf, sm), [(0, Rank 2)])]]
   \<and> ir_to_json example_types exN exN_store =
     Inr (JObj
       [(''name'', JStr ''example''), (''collective'', JStr ''allreduce''),
        (''protocol'', JStr ''Simple''), (''inplace'', JBool False),
        (''gpus'',
         JList
          [JObj
            [(''id'', JInt 0), (''inputChunks'', JInt 1),
             (''outputChunks'', JInt 0), (''scratchChunks'', JInt 5),
             (''chunkGroups'', JInt 1),
             (''threadblocks'',
              JList
               [JObj
                 [(''id'', JInt 0),
                  (''ops'',
                   JList
                    [JObj
                      [(''name'', JStr ''put''),
                       (''o_buff'',
                        JObj
                         [(''src'', JStr ''i''), (''dst'', JStr ''s'')]),
                       (''o_cids'',
                        JList [JObj [(''id'', JInt 0), (''off'', JInt 0)]]),
                       (''ctype'', JStr ''sm''), (''cnt'', JInt 1)]]),
                  (''channels'',
                   JList
                    [JObj
                      [(''src'', JStr ''i''), (''dst'', JStr ''s''),
                       (''ctype'', JStr ''sm''),
                       (''cids'', JList [JInt 1])]])]]),
             (''channels'',
              JList
               [JObj
                 [(''srcbuff'', JStr ''i''), (''dstbuff'', JStr ''s''),
                  (''type'', JStr ''sm''),
                  (''connectedTo'', JList [JInt 1, JInt 2])]])]]),
        (''num_threads_per_block'', JInt 1024),
        (''use_double_scratch_buffer'', JBool False),
        (''min_message_size'', JInt 0), (''max_message_size'', JInt 1024)])
   \<and> ir_to_json example_types exN_without exN_store =
     Inr (JObj
       [(''name'', JStr ''example''), (''collective'', JStr ''allreduce''),
        (''protocol'', JStr ''Simple''), (''inplace'', JBool False),
        (''gpus'',
         JList
          [JObj
            [(''id'', JInt 0), (''inputChunks'', JInt 1),
             (''outputChunks'', JInt 0), (''scratchChunks'', JInt 0),
             (''chunkGroups'', JInt 1),
             (''threadblocks'',
              JList
               [JObj
                 [(''id'', JInt 0),
                  (''ops'',
                   JList
                    [JObj
                      [(''name'', JStr ''put''),
                       (''o_buff'',
                        JObj
                         [(''src'', JStr ''i''), (''dst'', JStr ''s'')]),
                       (''o_cids'',
                        JList [JObj [(''id'', JInt 0), (''off'', JInt 0)]]),
                       (''ctype'', JStr ''sm''), (''cnt'', JInt 1)]]),
                  (''channels'',
                   JList
                    [JObj
                      [(''src'', JStr ''i''), (''dst'', JStr ''s''),
                       (''ctype'', JStr ''sm''),
                       (''cids'', JList [JInt 0])]])]]),
             (''channels'',
              JList
               [JObj
                 [(''srcbuff'', JStr ''i''), (''dstbuff'', JStr ''s''),
                  (''type'', JStr ''sm''),
                  (''connectedTo'', JList [JInt 2])]])]]),
        (''num_threads_per_block'', JInt 1024),
        (''use_double_scratch_buffer'', JBool False),
        (''min_message_size'', JInt 0), (''max_message_size'', JInt 1024)])"
proof -
  have 1: "tb_id t < 0 \<longrightarrow> dump_tb tm h g t = Inr None" by (simp add: dump_tb_def)
  have 0: "dump_gpu tm h p mi mo ms (i, g) = Inr doc \<longrightarrow>
        map (field ''id'') (items (field ''threadblocks'' doc)) =
          map (\<lambda>t. JInt (tb_id t)) (filter (\<lambda>t. 0 \<le> tb_id t) (threadblocks g))"
    using dump_gpu_tb_ids by blast
  have 2: "scratch_report (buffer_stage exN_store exN) = Inr [5]" by code_simp
  have 3: "scratch_report (buffer_stage exN_store exN_without) = Inr [0]" by code_simp
  have 4: "dict_report (channel_stage exN) =
       Inr [[((input_buf, scratch_buf, sm), [(- 1, Rank 1), (0, Rank 2)])]]" by code_simp
  have 5: "dict_report (channel_stage exN_without) =
       Inr [[((input_buf, scratch_buf, sm), [(0, Rank 2)])]]" by code_simp
  have 6: "ir_to_json example_types exN exN_store =
     Inr (JObj
       [(''name'', JStr ''example''), (''collective'', JStr ''allreduce''),
        (''protocol'', JStr ''Simple''), (''inplace'', JBool False),
        (''gpus'',
         JList
          [JObj
            [(''id'', JInt 0), (''inputChunks'', JInt 1),
             (''outputChunks'', JInt 0), (''scratchChunks'', JInt 5),
             (''chunkGroups'', JInt 1),
             (''threadblocks'',
              JList
               [JObj
                 [(''id'', JInt 0),
                  (''ops'',
                   JList
                    [JObj
                      [(''name'', JStr ''put''),
                       (''o_buff'',
                        JObj
                         [(''src'', JStr ''i''), (''dst'', JStr ''s'')]),
                       (''o_cids'',
                        JList [JObj [(''id'', JInt 0), (''off'', JInt 0)]]),
                       (''ctype'', JStr ''sm''), (''cnt'', JInt 1)]]),
                  (''channels'',
                   JList
                    [JObj
                      [(''src'', JStr ''i''), (''dst'', JStr ''s''),
                       (''ctype'', JStr ''sm''),
                       (''cids'', JList [JInt 1])]])]]),
             (''channels'',
              JList
               [JObj
                 [(''srcbuff'', JStr ''i''), (''dstbuff'', JStr ''s''),
                  (''type'', JStr ''sm''),
                  (''connectedTo'', JList [JInt 1, JInt 2])]])]]),
        (''num_threads_per_block'', JInt 1024),
        (''use_double_scratch_buffer'', JBool False),
        (''min_message_size'', JInt 0), (''max_message_size'', JInt 1024)])" by code_simp
  have 7: "ir_to_json example_types exN_without exN_store =
     Inr (JObj
       [(''name'', JStr ''example''), (''collective'', JStr ''allreduce''),
        (''protocol'', JStr ''Simple''), (''inplace'', JBool False),
        (''gpus'',
         JList
          [JObj
            [(''id'', JInt 0), (''inputChunks'', JInt 1),
             (''outputChunks'', JInt 0), (''scratchChunks'', JInt 0),
             (''chunkGroups'', JInt 1),
             (''threadblocks'',
              JList
               [JObj
                 [(''id'', JInt 0),
                  (''ops'',
                   JList
                    [JObj
                      [(''name'', JStr ''put''),
                       (''o_buff'',
                        JObj
                         [(''src'', JStr ''i''), (''dst'', JStr ''s'')]),
                       (''o_cids'',
                        JList [JObj [(''id'', JInt 0), (''off'', JInt 0)]]),
                       (''ctype'', JStr ''sm''), (''cnt'', JInt 1)]]),
                  (''channels'',
                   JList
                    [JObj
                      [(''src'', JStr ''i''), (''dst'', JStr ''s''),
                       (''ctype'', JStr ''sm''),
                       (''cids'', JList [JInt 0])]])]]),
             (''channels'',
              JList
               [JObj
                 [(''srcbuff'', JStr ''i''), (''dstbuff'', JStr ''s''),
                  (''type'', JStr ''sm''),
                  (''connectedTo'', JList [JInt 2])]])]]),
        (''num_threads_per_block'', JInt 1024),
        (''use_double_scratch_buffer'', JBool False),
        (''min_message_size'', JInt 0), (''max_message_size'', JInt 1024)])" by code_simp
  from 1 0 2 3 4 5 6 7 show ?thesis by (intro conjI)
qed

theorem negative_tb_counted_not_serialized_witness:
  "tb_id (mk_tb (- 1) [5] [sm_chan input_buf scratch_buf 1]) < 0
   \<and> dump_tb example_types exN_store (mk_gpu 0 [] 0 0 0)
        (mk_tb (- 1) [5] [sm_chan input_buf scratch_buf 1]) = Inr None
   \<and> map_sum id (\<lambda>doc. map (field ''id'') (items (field ''threadblocks'' doc)))
        (dump_gpu example_types exN_store exL 0 0 0
           (0, mk_gpu 0 [mk_tb (- 1) [] [], mk_tb 0 [] [], mk_tb 3 [] []] 0 0 0)) =
       Inr [JInt 0, JInt 3]"
proof -
  let ?t = "mk_tb (- 1) [5] [sm_chan input_buf scratch_buf 1]"
  let ?g = "mk_gpu 0 [mk_tb (- 1) [] [], mk_tb 0 [] [], mk_tb 3 [] []] 0 0 0"
  let ?doc = "JObj [(''id'', JInt 0), (''inputChunks'', JInt 0), (''outputChunks'', JInt 0),
      (''scratchChunks'', JInt 0), (''chunkGroups'', JInt 1),
      (''threadblocks'',
         JList [JObj [(''id'', JInt 0), (''ops'', JList []), (''channels'', JList [])],
                JObj [(''id'', JInt 3), (''ops'', JList []), (''channels'', JList [])]]),
      (''channels'', JList [])]"
  have n: "tb_id ?t < 0" by (simp add: mk_tb_def)
  have e: "dump_gpu example_types exN_store exL 0 0 0 (0, ?g) = Inr ?doc" by code_simp
  note c10 = negative_tb_counted_not_serialized
    [of ?t example_types exN_store "mk_gpu 0 [] 0 0 0" exL 0 0 0 0 ?doc]
  note c10g = negative_tb_counted_not_serialized
    [of ?t example_types exN_store ?g exL 0 0 0 0 ?doc]
  from c10 n have a: "dump_tb example_types exN_store (mk_gpu 0 [] 0 0 0) ?t = Inr None"
    by blast
  from c10g e have "map (field ''id'') (items (field ''threadblocks'' ?doc)) =
      map (\<lambda>t. JInt (tb_id t)) (filter (\<lambda>t. 0 \<le> tb_id t) (threadblocks ?g))"
    by blast
  then have "map (field ''id'') (items (field ''threadblocks'' ?doc)) = [JInt 0, JInt 3]"
    by (simp add: mk_gpu_def mk_tb_def)
  with n a show ?thesis by (simp add: e)
qed

end
